theory Spec2Isabelle
  imports Main "HOL-Library.Word" "HOL-Library.Sublist"
begin

unbundle bit_operations_syntax

section \<open>BillTracker: a shallow embedding of app.py\<close>

text \<open>
  The embedding follows \<^verbatim>\<open>src/app.py\<close> function by function. Conventions:
  \<^item> a Python \<^verbatim>\<open>str\<close> is a \<^typ>\<open>string\<close>, read as a list of code points; the
    model covers text whose code points are below 256;
  \<^item> a \<^verbatim>\<open>datetime.date\<close> is its proleptic Gregorian ordinal
    (\<^verbatim>\<open>date.toordinal()\<close>), an \<^typ>\<open>int\<close>: subtracting two dates and reading
    \<^verbatim>\<open>.days\<close> is integer subtraction, adding \<^verbatim>\<open>timedelta(days=n)\<close> is addition;
  \<^item> Python's \<^verbatim>\<open>None\<close> for a nullable column or a missing form field is
    \<^term>\<open>None\<close> of an option type;
  \<^item> a call that can raise returns a sum, \<^term>\<open>Inl\<close> carrying the exception;
  \<^item> what the program reads from outside (the clock, the mail server, the
    extraction service, the file system, the notification backend) is passed
    in as an argument, so that a run is a function of what it observed;
  \<^item> \<^verbatim>\<open>print\<close> calls are left out: no claim reads the log.
\<close>

subsection \<open>Python values and exceptions\<close>

type_synonym date = int

type_synonym bytes = "8 word list"

text \<open>
  The values \<^verbatim>\<open>json.loads\<close> can return. A Python \<^verbatim>\<open>float\<close> is kept as its
  IEEE 754 binary64 bit pattern, a \<^verbatim>\<open>dict\<close> as an association list read by
  its first matching key.
\<close>

datatype json =
    JNull
  | JBool bool
  | JInt int
  | JFloat "64 word"
  | JStr string
  | JList "json list"
  | JDict "(string \<times> json) list"

datatype exn =
    ValueError
  | TypeError
  | IndexError
  | AttributeError
  | JSONDecodeError
  | OSError
  | OverflowError
  | OtherError string

text \<open>Python truthiness (\<^verbatim>\<open>bool(v)\<close>) of a decoded JSON value. Both float
  zeros, \<^verbatim>\<open>0.0\<close> and \<^verbatim>\<open>-0.0\<close>, are false; NaN and the infinities are true.\<close>

fun truthy :: "json \<Rightarrow> bool" where
  "truthy JNull = False"
| "truthy (JBool b) = b"
| "truthy (JInt i) = (i \<noteq> 0)"
| "truthy (JFloat w) = (w AND 0x7FFFFFFFFFFFFFFF \<noteq> 0)"
| "truthy (JStr s) = (s \<noteq> [])"
| "truthy (JList xs) = (xs \<noteq> [])"
| "truthy (JDict kvs) = (kvs \<noteq> [])"

text \<open>\<^verbatim>\<open>d.get(k)\<close> on a dict: the value, or \<^verbatim>\<open>None\<close> when the key is missing.\<close>

definition dict_get :: "(string \<times> json) list \<Rightarrow> string \<Rightarrow> json" where
  "dict_get kvs k = (case map_of kvs k of None \<Rightarrow> JNull | Some v \<Rightarrow> v)"

text \<open>Truthiness of an optional string (a nullable column, an environment
  variable, a form field): \<^verbatim>\<open>None\<close> and \<^verbatim>\<open>''\<close> are false.\<close>

fun truthy_str :: "string option \<Rightarrow> bool" where
  "truthy_str None = False"
| "truthy_str (Some s) = (s \<noteq> [])"

subsection \<open>String helpers of the Python library\<close>

text \<open>\<^verbatim>\<open>str.isspace\<close> on one code point below 256.\<close>

definition isspace :: "char \<Rightarrow> bool" where
  "isspace c = (let n = (of_char c :: nat) in
     (9 \<le> n \<and> n \<le> 13) \<or> (28 \<le> n \<and> n \<le> 32) \<or> n = 133 \<or> n = 160)"

text \<open>\<^verbatim>\<open>str.strip()\<close>: leading and trailing whitespace removed.\<close>

definition strip :: "string \<Rightarrow> string" where
  "strip s = rev (dropWhile isspace (rev (dropWhile isspace s)))"

text \<open>\<^verbatim>\<open>str.lower()\<close> on one code point below 256.\<close>

definition lower_char :: "char \<Rightarrow> char" where
  "lower_char c = (let n = (of_char c :: nat) in
     if (65 \<le> n \<and> n \<le> 90) \<or> (192 \<le> n \<and> n \<le> 222 \<and> n \<noteq> 215)
     then char_of (n + 32) else c)"

definition lower :: "string \<Rightarrow> string" where
  "lower s = map lower_char s"

text \<open>\<^verbatim>\<open>s.startswith(p)\<close> and \<^verbatim>\<open>s.endswith(p)\<close>.\<close>

definition startswith :: "string \<Rightarrow> string \<Rightarrow> bool" where
  "startswith s p = (take (length p) s = p)"

definition endswith :: "string \<Rightarrow> string \<Rightarrow> bool" where
  "endswith s p = (length p \<le> length s \<and> drop (length s - length p) s = p)"

text \<open>\<^verbatim>\<open>s.rsplit('.', 1)[1]\<close>: the text after the last dot, \<^verbatim>\<open>IndexError\<close>
  when \<^verbatim>\<open>s\<close> has no dot.\<close>

definition rsplit_dot_1 :: "string \<Rightarrow> exn + string" where
  "rsplit_dot_1 s =
     (if CHR ''.'' \<in> set s then Inr (rev (takeWhile (\<lambda>c. c \<noteq> CHR ''.'') (rev s)))
      else Inl IndexError)"

subsection \<open>The data model (db.Model classes)\<close>

text \<open>\<^verbatim>\<open>class User\<close>, lines 66 to 75. The primary key \<^verbatim>\<open>id\<close> is \<open>uid\<close>.\<close>

record user =
  uid :: int
  email :: string
  password_hash :: "string option"
  name :: "string option"
  notify_url :: "string option"
  imap_server :: "string option"
  imap_user :: "string option"
  imap_password :: "string option"

text \<open>\<^verbatim>\<open>class Bill\<close>, lines 77 to 87. The primary key \<^verbatim>\<open>id\<close> is \<open>bid\<close>. The
  title and the amount hold whatever Python value the caller stored (the
  mailbox job stores decoded JSON there unchecked); the two timestamps
  \<^verbatim>\<open>created_at\<close> and \<^verbatim>\<open>paid_at\<close> are read by no modelled operation and are
  left out.\<close>

record bill =
  bid :: int
  title :: json
  filename :: string
  amount :: json
  status :: string
  due_date :: "date option"
  user_id :: int

text \<open>\<^verbatim>\<open>class BillFile\<close>, lines 100 to 103.\<close>

record bill_file =
  fid :: int
  bill_id :: int
  file_name :: string

text \<open>The relational store: three tables, rows in table order.\<close>

record db =
  users :: "user list"
  bills :: "bill list"
  bill_files :: "bill_file list"

text \<open>The relationships: \<^verbatim>\<open>bill.owner\<close> (backref of \<^verbatim>\<open>User.bills\<close>),
  \<^verbatim>\<open>bill.files\<close> and \<^verbatim>\<open>bill_file.bill\<close>.\<close>

definition owner :: "db \<Rightarrow> bill \<Rightarrow> user option" where
  "owner d b = find (\<lambda>u. uid u = user_id b) (users d)"

definition files :: "db \<Rightarrow> bill \<Rightarrow> bill_file list" where
  "files d b = filter (\<lambda>f. bill_id f = bid b) (bill_files d)"

definition bill_of :: "db \<Rightarrow> bill_file \<Rightarrow> bill option" where
  "bill_of d f = find (\<lambda>b. bid b = bill_id f) (bills d)"

subsection \<open>send\_notification (lines 119 to 138)\<close>

text \<open>
  The title and body every caller builds, kept as the template and its
  arguments rather than as formatted text:
  \<^item> \<open>Overdue t d\<close>: the overdue alert of \<^verbatim>\<open>check_due_dates\<close>, line 294, whose
    body names the bill's title \<open>t\<close> and its due date \<open>d\<close>;
  \<^item> \<open>Reminder t\<close>: the three-day reminder, line 296;
  \<^item> \<open>Imported s\<close>: "Neue Rechnung", line 265, whose body names the message
    subject \<open>s\<close>;
  \<^item> \<open>TestNote\<close>: the test notification of line 445.
\<close>

datatype notice =
    Overdue json date
  | Reminder json
  | Imported string
  | TestNote

text \<open>The process-wide settings read from the environment at start-up
  (lines 24 and 55 to 60).\<close>

record config =
  UPLOAD_FOLDER :: string
  NOTIFY_URL :: "string option"
  GEMINI_API_KEY :: "string option"

text \<open>
  One delivery attempt (lines 134 to 136) either returns or raises; the
  backend \<open>deliver\<close> says which for each endpoint. The loop catches every
  exception of an attempt and goes on, so it yields the list of endpoints
  tried, each with the exception that was swallowed there, if any.
\<close>

type_synonym backend = "string \<Rightarrow> notice \<Rightarrow> exn option"

fun notify_each :: "backend \<Rightarrow> notice \<Rightarrow> string list \<Rightarrow> (string \<times> exn option) list" where
  "notify_each deliver n [] = []"
| "notify_each deliver n (url # urls) = (url, deliver url n) # notify_each deliver n urls"

text \<open>The endpoints resolved by lines 120 to 127.\<close>

definition resolve_urls :: "config \<Rightarrow> user option \<Rightarrow> string list" where
  "resolve_urls cfg usr =
     (let urls = (case usr of
                    Some u \<Rightarrow> (if truthy_str (notify_url u) then [the (notify_url u)] else [])
                  | None \<Rightarrow> [])
      in if urls = [] \<and> truthy_str (NOTIFY_URL cfg) then urls @ [the (NOTIFY_URL cfg)]
         else urls)"

text \<open>The result is \<open>Inr\<close> of the attempts made when the call returns and
  \<open>Inl\<close> of the exception when it raises to its caller.\<close>

definition send_notification ::
  "config \<Rightarrow> backend \<Rightarrow> notice \<Rightarrow> user option \<Rightarrow> exn + (string \<times> exn option) list" where
  "send_notification cfg deliver n usr =
     (let urls = resolve_urls cfg usr
      in if urls = [] then Inr [] else Inr (notify_each deliver n urls))"

subsection \<open>check\_due\_dates (lines 284 to 296)\<close>

text \<open>A call of \<^verbatim>\<open>send_notification\<close>: what is sent and the \<^verbatim>\<open>user\<close> argument.\<close>

type_synonym call = "notice \<times> user option"

text \<open>The loop body, lines 290 to 296, for one bill of the query result.\<close>

definition check_bill :: "db \<Rightarrow> date \<Rightarrow> bill \<Rightarrow> call list" where
  "check_bill d today b =
     (case due_date b of
        None \<Rightarrow> []
      | Some due \<Rightarrow>
          (let days = due - today
           in if days \<le> 0 then [(Overdue (title b) due, owner d b)]
              else if days = 3 then [(Reminder (title b), owner d b)]
              else []))"

fun check_loop :: "db \<Rightarrow> date \<Rightarrow> bill list \<Rightarrow> call list" where
  "check_loop d today [] = []"
| "check_loop d today (b # bs) = check_bill d today b @ check_loop d today bs"

text \<open>One run of the job: the calls of \<^verbatim>\<open>send_notification\<close> it makes, in
  order. \<open>today\<close> is \<^verbatim>\<open>datetime.now().date()\<close>.\<close>

definition check_due_dates :: "db \<Rightarrow> date \<Rightarrow> call list" where
  "check_due_dates d today =
     check_loop d today (filter (\<lambda>b. status b = ''offen'') (bills d))"

subsection \<open>settings (lines 424 to 439)\<close>

datatype http_method = GET | POST

datatype response =
    Rendered
  | Redirect
  | NotFound
  | Forbidden
  | SendFile string

text \<open>A submitted form: \<^verbatim>\<open>request.form.get(k)\<close> is \<open>form k\<close>.\<close>

type_synonym form = "string \<rightharpoonup> string"

text \<open>The handler for the logged-in user \<open>u\<close> (\<^verbatim>\<open>current_user\<close>): the row
  as committed and the response.\<close>

definition settings :: "http_method \<Rightarrow> form \<Rightarrow> user \<Rightarrow> user \<times> response" where
  "settings m frm u =
     (case m of
        POST \<Rightarrow>
          (let u1 = u\<lparr>notify_url := frm ''notify_url'',
                      imap_server := frm ''imap_server'',
                      imap_user := frm ''imap_user''\<rparr>;
               pw = frm ''imap_password'';
               u2 = (if truthy_str pw \<and> strip (the pw) \<noteq> []
                     then u1\<lparr>imap_password := pw\<rparr> else u1)
           in (u2, Redirect))
      | GET \<Rightarrow> (u, Rendered))"

subsection \<open>datetime.strptime(s, '%Y-%m-%d').date() (line 199)\<close>

text \<open>
  The library call is modelled as CPython implements it. The format is turned
  into the regular expression
  \<^verbatim>\<open>(?P<Y>\d\d\d\d)-(?P<m>1[0-2]|0[1-9]|[1-9])-(?P<d>3[0-1]|[1-2]\d|0[1-9]|[1-9]| [1-9])\<close>,
  matched at the start of the text by a backtracking matcher that tries the
  alternatives from left to right; text left over after the match, a year
  below 1 and a day beyond the month's length raise \<^verbatim>\<open>ValueError\<close>.
\<close>

datatype rx =
    Chr char
  | Rng char char
  | Seq rx rx
  | Alt rx rx

text \<open>All ways \<open>r\<close> matches a prefix of the text, in the order a backtracking
  matcher finds them, each as the matched text and the rest.\<close>

fun rx_match :: "rx \<Rightarrow> string \<Rightarrow> (string \<times> string) list" where
  "rx_match (Chr c) s = (case s of [] \<Rightarrow> [] | x # r \<Rightarrow> if x = c then [([x], r)] else [])"
| "rx_match (Rng lo hi) s =
     (case s of [] \<Rightarrow> []
      | x # r \<Rightarrow> if (of_char lo :: nat) \<le> of_char x \<and> (of_char x :: nat) \<le> of_char hi
                 then [([x], r)] else [])"
| "rx_match (Seq a b) s =
     concat (map (\<lambda>(m1, r1). map (\<lambda>(m2, r2). (m1 @ m2, r2)) (rx_match b r1)) (rx_match a s))"
| "rx_match (Alt a b) s = rx_match a s @ rx_match b s"

definition rx_digit :: rx where
  "rx_digit = Rng (CHR ''0'') (CHR ''9'')"

definition rx_Y :: rx where
  "rx_Y = Seq rx_digit (Seq rx_digit (Seq rx_digit rx_digit))"

definition rx_m :: rx where
  "rx_m = Alt (Seq (Chr (CHR ''1'')) (Rng (CHR ''0'') (CHR ''2'')))
         (Alt (Seq (Chr (CHR ''0'')) (Rng (CHR ''1'') (CHR ''9'')))
              (Rng (CHR ''1'') (CHR ''9'')))"

definition rx_d :: rx where
  "rx_d = Alt (Seq (Chr (CHR ''3'')) (Rng (CHR ''0'') (CHR ''1'')))
         (Alt (Seq (Rng (CHR ''1'') (CHR ''2'')) rx_digit)
         (Alt (Seq (Chr (CHR ''0'')) (Rng (CHR ''1'') (CHR ''9'')))
         (Alt (Rng (CHR ''1'') (CHR ''9''))
              (Seq (Chr (CHR '' '')) (Rng (CHR ''1'') (CHR ''9''))))))"

text \<open>The first match of the whole expression: the three groups and the
  text left over.\<close>

definition ymd_match :: "string \<Rightarrow> (string \<times> string \<times> string \<times> string) option" where
  "ymd_match s =
     (case concat (map (\<lambda>(y, r1).
             concat (map (\<lambda>(_, r2).
               concat (map (\<lambda>(m, r3).
                 concat (map (\<lambda>(_, r4).
                   map (\<lambda>(d, r5). (y, m, d, r5)) (rx_match rx_d r4))
                 (rx_match (Chr (CHR ''-'')) r3)))
               (rx_match rx_m r2)))
             (rx_match (Chr (CHR ''-'')) r1)))
           (rx_match rx_Y s)) of
        [] \<Rightarrow> None
      | x # _ \<Rightarrow> Some x)"

text \<open>\<^verbatim>\<open>int(g)\<close> on a matched group: decimal digits, a leading blank skipped.\<close>

definition int_of_group :: "string \<Rightarrow> int" where
  "int_of_group g =
     foldl (\<lambda>acc c. 10 * acc + (int (of_char c) - 48)) 0 (filter (\<lambda>c. c \<noteq> CHR '' '') g)"

definition is_leap :: "int \<Rightarrow> bool" where
  "is_leap y = (y mod 4 = 0 \<and> (y mod 100 \<noteq> 0 \<or> y mod 400 = 0))"

definition days_in_month :: "int \<Rightarrow> int \<Rightarrow> int" where
  "days_in_month y m =
     (if m = 2 \<and> is_leap y then 29
      else [31, 28, 31, 30, 31, 30, 31, 31, 30, 31, 30, 31] ! nat (m - 1))"

definition days_before_year :: "int \<Rightarrow> int" where
  "days_before_year year =
     (let y = year - 1 in y * 365 + y div 4 - y div 100 + y div 400)"

definition days_before_month :: "int \<Rightarrow> int \<Rightarrow> int" where
  "days_before_month y m =
     [0, 31, 59, 90, 120, 151, 181, 212, 243, 273, 304, 334] ! nat (m - 1)
       + (if m > 2 \<and> is_leap y then 1 else 0)"

text \<open>\<^verbatim>\<open>date(y, m, d).toordinal()\<close>; both tables are read with \<open>m\<close> from 1 to
  12 only.\<close>

definition ymd2ord :: "int \<Rightarrow> int \<Rightarrow> int \<Rightarrow> date" where
  "ymd2ord y m d = days_before_year y + days_before_month y m + d"

text \<open>\<^verbatim>\<open>date.max.toordinal()\<close>, the ordinal of 9999-12-31.\<close>

definition max_ordinal :: date where
  "max_ordinal = 3652059"

definition strptime_ymd :: "string \<Rightarrow> exn + date" where
  "strptime_ymd s =
     (case ymd_match s of
        None \<Rightarrow> Inl ValueError
      | Some (gy, gm, gd, rest) \<Rightarrow>
          if rest \<noteq> [] then Inl ValueError
          else (let y = int_of_group gy; m = int_of_group gm; d = int_of_group gd
                in if 1 \<le> y \<and> d \<le> days_in_month y m then Inr (ymd2ord y m d)
                   else Inl ValueError))"

subsection \<open>analyze\_bill\_ai (lines 140 to 219)\<close>

text \<open>
  What one call observes of the outside world:
  \<^item> \<open>configure\<close>: the exception raised by lines 149 and 150, if any;
  \<^item> \<open>read_file p\<close>: lines 173 and 174, the bytes of the file or the exception;
  \<^item> \<open>generate mime data\<close>: lines 184 and 185 before \<^verbatim>\<open>strip\<close>, the reply
    text or the exception of the network call;
  \<^item> \<open>json_loads\<close>: the library's \<^verbatim>\<open>json.loads\<close>;
  \<^item> \<open>list_models\<close>: the exception raised by the diagnostic listing of lines
    214 to 216, if any.
\<close>

record ai_env =
  configure :: "exn option"
  read_file :: "string \<Rightarrow> exn + bytes"
  generate :: "string \<Rightarrow> bytes \<Rightarrow> exn + string"
  json_loads :: "string \<Rightarrow> exn + json"
  list_models :: "exn option"

text \<open>The result dict of line 195: the key \<^verbatim>\<open>'date'\<close> may be missing, the
  keys \<^verbatim>\<open>'title'\<close> and \<^verbatim>\<open>'amount'\<close> are always set.\<close>

record extraction =
  date_field :: "date option"
  title_field :: json
  amount_field :: json

text \<open>Lines 163 to 169.\<close>

definition mime_type_of :: "string \<Rightarrow> string option" where
  "mime_type_of ext =
     (if ext \<in> set [''jpg'', ''jpeg''] then Some ''image/jpeg''
      else if ext = ''png'' then Some ''image/png''
      else if ext = ''pdf'' then Some ''application/pdf''
      else None)"

text \<open>The three backquotes of a Markdown code fence.\<close>

definition fence :: string where
  "fence = replicate 3 (CHR 0x60)"

text \<open>Lines 185 to 191: the reply stripped, then freed of a leading fence with
  the word json (seven characters) and of a trailing fence.\<close>

definition unfence :: "string \<Rightarrow> string" where
  "unfence text0 =
     (let ans = strip text0;
          ans1 = (if startswith ans (fence @ ''json'') then drop 7 ans else ans);
          ans2 = (if endswith ans1 fence then take (length ans1 - 3) ans1 else ans1)
      in ans2)"

text \<open>Lines 195 to 206 on the decoded reply. \<^verbatim>\<open>data.get\<close> exists on a dict
  only; \<^verbatim>\<open>strptime\<close> takes a \<^verbatim>\<open>str\<close> only, and only its \<^verbatim>\<open>ValueError\<close> is
  caught at line 200.\<close>

definition build_result :: "json \<Rightarrow> exn + extraction" where
  "build_result data =
     (case data of
        JDict kvs \<Rightarrow>
          (let rest = (\<lambda>dt. Inr \<lparr>date_field = dt,
                                  title_field = dict_get kvs ''title'',
                                  amount_field = dict_get kvs ''amount''\<rparr>)
           in if truthy (dict_get kvs ''date'') then
                (case dict_get kvs ''date'' of
                   JStr s \<Rightarrow>
                     (case strptime_ymd s of
                        Inr dt \<Rightarrow> rest (Some dt)
                      | Inl ValueError \<Rightarrow> rest None
                      | Inl e \<Rightarrow> Inl e)
                 | _ \<Rightarrow> Inl TypeError)
              else rest None)
      | _ \<Rightarrow> Inl AttributeError)"

text \<open>The body of the outer \<^verbatim>\<open>try\<close>, lines 149 to 208: \<open>Inl\<close> is an exception
  that reaches the handler of line 210, \<open>Inr None\<close> is the early return of
  line 181 or the fall through of line 208 to the final \<^verbatim>\<open>return None\<close>.\<close>

definition analyze_body :: "ai_env \<Rightarrow> string \<Rightarrow> exn + extraction option" where
  "analyze_body env filepath =
     (case configure env of
        Some e \<Rightarrow> Inl e
      | None \<Rightarrow>
     (case rsplit_dot_1 filepath of
        Inl e \<Rightarrow> Inl e
      | Inr ext0 \<Rightarrow>
     (case mime_type_of (lower ext0) of
        None \<Rightarrow> Inr None
      | Some mime \<Rightarrow>
     (case read_file env filepath of
        Inl e \<Rightarrow> Inl e
      | Inr file_data \<Rightarrow>
     (case generate env mime file_data of
        Inl e \<Rightarrow> Inl e
      | Inr text0 \<Rightarrow>
     (case json_loads env (strip (unfence text0)) of
        Inl JSONDecodeError \<Rightarrow> Inr None
      | Inl e \<Rightarrow> Inl e
      | Inr data \<Rightarrow>
     (case build_result data of
        Inl e \<Rightarrow> Inl e
      | Inr res \<Rightarrow> Inr (Some res))))))))"

text \<open>The whole function: \<open>Inr\<close> is what it returns, \<open>Inl\<close> an exception
  raised to the caller. The handler of lines 210 to 218 swallows the
  exception of its own listing and falls through to \<^verbatim>\<open>return None\<close>.\<close>

definition analyze_bill_ai :: "config \<Rightarrow> ai_env \<Rightarrow> string \<Rightarrow> exn + extraction option" where
  "analyze_bill_ai cfg env filepath =
     (if \<not> truthy_str (GEMINI_API_KEY cfg) then Inr None
      else (case analyze_body env filepath of
              Inr r \<Rightarrow> Inr r
            | Inl e \<Rightarrow> (case list_models env of
                          Some e2 \<Rightarrow> Inr None
                        | None \<Rightarrow> Inr None)))"

subsection \<open>process\_mailbox (lines 222 to 267)\<close>

text \<open>\<^verbatim>\<open>str(n)\<close> for an integer, as the f-string of line 231 prints it.\<close>

function str_digits :: "int \<Rightarrow> string" where
  "str_digits i =
     (if i < 10 then [char_of (48 + i)]
      else str_digits (i div 10) @ [char_of (48 + i mod 10)])"
  by pat_completeness auto
termination
  by (relation "measure nat") auto

declare str_digits.simps [simp del]

definition str_int :: "int \<Rightarrow> string" where
  "str_int i = (if i < 0 then CHR ''-'' # str_digits (- i) else str_digits i)"

text \<open>An attachment of a fetched message: \<^verbatim>\<open>att.filename\<close> and \<^verbatim>\<open>att.payload\<close>.\<close>

record attachment =
  att_filename :: "string option"
  payload :: bytes

text \<open>
  What the job observes while it handles one attachment that passes the test
  of line 230:
  \<^item> \<open>now_ts\<close>: \<^verbatim>\<open>int(datetime.now().timestamp())\<close> of line 231;
  \<^item> \<open>write_error\<close>: the exception raised by lines 233 and 234, if any;
  \<^item> \<open>today\<close>: \<^verbatim>\<open>datetime.now().date()\<close> of line 236;
  \<^item> \<open>ai\<close>: what the call of \<^verbatim>\<open>analyze_bill_ai\<close> observes;
  \<^item> \<open>commit_error\<close>: an exception raised by the commit of line 259 for a
    cause other than the uniqueness of the stored filename, if any.
\<close>

record world =
  now_ts :: int
  write_error :: "exn option"
  today :: date
  ai :: ai_env
  commit_error :: "exn option"

text \<open>A fetched message: \<^verbatim>\<open>msg.subject\<close> and \<^verbatim>\<open>msg.attachments\<close>, each
  attachment with what is observed while it is handled.\<close>

record message =
  subject :: string
  attachments :: "(attachment \<times> world) list"

text \<open>One mailbox session: the exception of the login of line 225, if any,
  and the unseen messages the fetch of line 226 yields.\<close>

record mailbox =
  login_error :: "exn option"
  unseen :: "message list"

text \<open>The upload folder: the stored files by name.\<close>

type_synonym disk = "string \<rightharpoonup> bytes"

text \<open>What the job changes: the store, the upload folder and the calls of
  \<^verbatim>\<open>send_notification\<close> made so far, oldest first.\<close>

record state =
  store :: db
  uploads :: disk
  sent :: "call list"

text \<open>The primary key the store gives a new bill row: one more than the
  largest in the table.\<close>

definition next_bid :: "db \<Rightarrow> int" where
  "next_bid d = fold max (map bid (bills d)) 0 + 1"

text \<open>\<^verbatim>\<open>db.session.add(new_bill)\<close> and \<^verbatim>\<open>db.session.commit()\<close>, lines 257 and
  259: the commit raises on a stored filename that a bill row already has
  (\<^verbatim>\<open>unique=True\<close>, line 80) and leaves the table as it was; otherwise the
  row is appended.\<close>

definition commit_bill :: "db \<Rightarrow> exn option \<Rightarrow> bill \<Rightarrow> exn + db" where
  "commit_bill d fault b =
     (case fault of
        Some e \<Rightarrow> Inl e
      | None \<Rightarrow>
          if filename b \<in> set (map filename (bills d)) then Inl (OtherError ''IntegrityError'')
          else Inr (d\<lparr>bills := bills d @ [b\<lparr>bid := next_bid d\<rparr>]\<rparr>))"

text \<open>Lines 241 to 256: the bill built from the extraction result. The
  status is the column default of line 82.\<close>

definition new_bill :: "user \<Rightarrow> string \<Rightarrow> string \<Rightarrow> date \<Rightarrow> extraction option \<Rightarrow> bill" where
  "new_bill own subj secure_name default_due ai_data =
     (let due0 = default_due;
          title0 = JStr (take 100 subj);
          amount0 = JNull;
          due1 = (case ai_data of
                    Some r \<Rightarrow> (case date_field r of Some dt \<Rightarrow> dt | None \<Rightarrow> due0)
                  | None \<Rightarrow> due0);
          title1 = (case ai_data of
                      Some r \<Rightarrow> (if truthy (title_field r) then title_field r else title0)
                    | None \<Rightarrow> title0);
          amount1 = (case ai_data of
                       Some r \<Rightarrow> (if truthy (amount_field r) then amount_field r else amount0)
                     | None \<Rightarrow> amount0)
      in \<lparr>bid = 0, title = title1, filename = secure_name, amount = amount1,
          status = ''offen'', due_date = Some due1, user_id = uid own\<rparr>)"

text \<open>The stored name and the path of lines 231 and 232.\<close>

definition secure_name_of :: "world \<Rightarrow> attachment \<Rightarrow> string" where
  "secure_name_of w att = str_int (now_ts w) @ ''_'' @ the (att_filename att)"

definition save_path_of :: "config \<Rightarrow> world \<Rightarrow> attachment \<Rightarrow> string" where
  "save_path_of cfg w att = UPLOAD_FOLDER cfg @ ''/'' @ secure_name_of w att"

text \<open>The test of line 230.\<close>

definition is_pdf :: "attachment \<Rightarrow> bool" where
  "is_pdf att =
     (truthy_str (att_filename att) \<and> endswith (lower (the (att_filename att))) ''.pdf'')"

text \<open>The body of the inner loop, lines 230 to 262, for one attachment: the
  state it leaves, whether it committed a bill (\<^verbatim>\<open>found_file = True\<close>), and the
  exception that leaves the loop, if any. Adding 30 days to a date within 30
  days of \<^verbatim>\<open>date.max\<close> raises \<^verbatim>\<open>OverflowError\<close>.\<close>

definition process_attachment ::
  "config \<Rightarrow> user \<Rightarrow> string \<Rightarrow> state \<Rightarrow> attachment \<times> world \<Rightarrow> state \<times> bool \<times> exn option" where
  "process_attachment cfg own subj st aw =
     (let att = fst aw; w = snd aw
      in if is_pdf att then
           (case write_error w of
              Some e \<Rightarrow> (st, False, Some e)
            | None \<Rightarrow>
                (let st1 = st\<lparr>uploads := (uploads st)(secure_name_of w att \<mapsto> payload att)\<rparr>
                 in if today w + 30 > max_ordinal then (st1, False, Some OverflowError)
                    else
                      (case analyze_bill_ai cfg (ai w) (save_path_of cfg w att) of
                         Inl e \<Rightarrow> (st1, False, Some e)
                       | Inr ai_data \<Rightarrow>
                           (case commit_bill (store st1) (commit_error w)
                                   (new_bill own subj (secure_name_of w att) (today w + 30) ai_data) of
                              Inr d' \<Rightarrow> (st1\<lparr>store := d'\<rparr>, True, None)
                            | Inl e \<Rightarrow> (st1, False, None)))))
         else (st, False, None))"

text \<open>The inner loop, lines 229 to 262, with the flag \<^verbatim>\<open>found_file\<close>.\<close>

fun attachments_loop ::
  "config \<Rightarrow> user \<Rightarrow> string \<Rightarrow> state \<Rightarrow> bool \<Rightarrow> (attachment \<times> world) list
     \<Rightarrow> state \<times> bool \<times> exn option" where
  "attachments_loop cfg own subj st found [] = (st, found, None)"
| "attachments_loop cfg own subj st found (aw # rest) =
     (case process_attachment cfg own subj st aw of
        (st1, committed, Some e) \<Rightarrow> (st1, found \<or> committed, Some e)
      | (st1, committed, None) \<Rightarrow> attachments_loop cfg own subj st1 (found \<or> committed) rest)"

text \<open>The body of the outer loop, lines 227 to 265, for one message.\<close>

definition process_message :: "config \<Rightarrow> user \<Rightarrow> state \<Rightarrow> message \<Rightarrow> state \<times> exn option" where
  "process_message cfg own st msg =
     (if attachments msg \<noteq> [] then
        (case attachments_loop cfg own (subject msg) st False (attachments msg) of
           (st1, found, Some e) \<Rightarrow> (st1, Some e)
         | (st1, found, None) \<Rightarrow>
             if found then (st1\<lparr>sent := sent st1 @ [(Imported (subject msg), Some own)]\<rparr>, None)
             else (st1, None))
      else (st, None))"

fun messages_loop :: "config \<Rightarrow> user \<Rightarrow> state \<Rightarrow> message list \<Rightarrow> state \<times> exn option" where
  "messages_loop cfg own st [] = (st, None)"
| "messages_loop cfg own st (msg # rest) =
     (case process_message cfg own st msg of
        (st1, Some e) \<Rightarrow> (st1, Some e)
      | (st1, None) \<Rightarrow> messages_loop cfg own st1 rest)"

text \<open>The whole job for one mailbox: the state it leaves and the exception
  the handler of line 266 caught, if any. Nothing is raised to the caller.\<close>

definition process_mailbox :: "config \<Rightarrow> user \<Rightarrow> state \<Rightarrow> mailbox \<Rightarrow> state \<times> exn option" where
  "process_mailbox cfg own st mb =
     (case login_error mb of
        Some e \<Rightarrow> (st, Some e)
      | None \<Rightarrow> messages_loop cfg own st (unseen mb))"

subsection \<open>delete\_bill (lines 578 to 598)\<close>

text \<open>Lines 590 to 593 for one name: a file that exists is removed unless
  \<^verbatim>\<open>os.remove\<close> raises, which line 593 ignores. \<open>rm\<close> gives the exception
  \<^verbatim>\<open>os.remove\<close> raises for a name, if any.\<close>

definition remove_file :: "(string \<Rightarrow> exn option) \<Rightarrow> string \<Rightarrow> disk \<Rightarrow> disk" where
  "remove_file rm fname fs =
     (if fs fname \<noteq> None then
        (case rm fname of None \<Rightarrow> fs(fname := None) | Some e \<Rightarrow> fs)
      else fs)"

text \<open>The handler for the logged-in user with id \<open>cur\<close>. The set of line 584
  is a duplicate-free list; the session delete of line 595 removes the bill's
  row and, by the cascade of line 87, the rows of \<^verbatim>\<open>bill.files\<close>.\<close>

definition delete_bill ::
  "(string \<Rightarrow> exn option) \<Rightarrow> int \<Rightarrow> int \<Rightarrow> db \<times> disk \<Rightarrow> (db \<times> disk) \<times> response" where
  "delete_bill rm cur i s =
     (let d = fst s; fs = snd s
      in case find (\<lambda>b. bid b = i \<and> user_id b = cur) (bills d) of
           None \<Rightarrow> (s, NotFound)
         | Some b \<Rightarrow>
             (let files_to_delete = remdups (filename b # map file_name (files d b));
                  fs1 = fold (remove_file rm) files_to_delete fs;
                  d1 = d\<lparr>bills := filter (\<lambda>x. bid x \<noteq> bid b) (bills d),
                         bill_files := filter (\<lambda>f. bill_id f \<noteq> bid b) (bill_files d)\<rparr>
              in ((d1, fs1), Redirect)))"

subsection \<open>serve\_file (lines 600 to 615)\<close>

definition serve_file :: "db \<Rightarrow> int \<Rightarrow> string \<Rightarrow> response" where
  "serve_file d cur fname =
     (let bill0 = find (\<lambda>b. filename b = fname) (bills d);
          bill1 = (case bill0 of
                     None \<Rightarrow>
                       (case find (\<lambda>f. file_name f = fname) (bill_files d) of
                          Some bf \<Rightarrow> bill_of d bf
                        | None \<Rightarrow> None)
                   | Some b \<Rightarrow> Some b)
      in case bill1 of
           None \<Rightarrow> NotFound
         | Some b \<Rightarrow> if user_id b \<noteq> cur then Forbidden else SendFile fname)"

subsection \<open>Sample data\<close>

text \<open>Two accounts, one with a personal endpoint, and the process settings
  with and without a fallback endpoint.\<close>

definition alice :: user where
  "alice = \<lparr>uid = 1, email = ''alice@example.org'', password_hash = None,
            name = Some ''Alice'', notify_url = Some ''mailto://alice'',
            imap_server = Some ''imap.example.org'', imap_user = Some ''alice'',
            imap_password = Some ''secret''\<rparr>"

definition bob :: user where
  "bob = \<lparr>uid = 2, email = ''bob@example.org'', password_hash = None,
          name = None, notify_url = Some '''',
          imap_server = None, imap_user = None, imap_password = None\<rparr>"

definition cfg_fallback :: config where
  "cfg_fallback = \<lparr>UPLOAD_FOLDER = ''/app/data/uploads'',
                   NOTIFY_URL = Some ''json://fallback'',
                   GEMINI_API_KEY = Some ''key''\<rparr>"

definition cfg_plain :: config where
  "cfg_plain = \<lparr>UPLOAD_FOLDER = ''/app/data/uploads'', NOTIFY_URL = None,
                GEMINI_API_KEY = None\<rparr>"

text \<open>A backend on which every delivery raises.\<close>

definition failing_backend :: backend where
  "failing_backend = (\<lambda>url n. Some OSError)"

text \<open>Five bills around the day with ordinal 738959 (2024-03-14): due that
  day, three days later, five days later, paid and due that day, and open
  without a due date.\<close>

definition reminder_db :: db where
  "reminder_db = \<lparr>users = [alice, bob],
     bills = [\<lparr>bid = 1, title = JStr ''Strom'', filename = ''1_a.pdf'', amount = JNull,
               status = ''offen'', due_date = Some 738959, user_id = 1\<rparr>,
              \<lparr>bid = 2, title = JStr ''Miete'', filename = ''2_b.pdf'', amount = JNull,
               status = ''offen'', due_date = Some 738962, user_id = 2\<rparr>,
              \<lparr>bid = 3, title = JStr ''Wasser'', filename = ''3_c.pdf'', amount = JNull,
               status = ''offen'', due_date = Some 738964, user_id = 1\<rparr>,
              \<lparr>bid = 4, title = JStr ''Gas'', filename = ''4_d.pdf'', amount = JNull,
               status = ''bezahlt'', due_date = Some 738959, user_id = 1\<rparr>,
              \<lparr>bid = 5, title = JStr ''Telefon'', filename = ''5_e.pdf'', amount = JNull,
               status = ''offen'', due_date = None, user_id = 1\<rparr>],
     bill_files = []\<rparr>"

text \<open>A settings form with a blank mailbox password and an empty endpoint.\<close>

definition blank_form :: form where
  "blank_form = [''notify_url'' \<mapsto> '''', ''imap_server'' \<mapsto> ''mail.example.org'',
                 ''imap_user'' \<mapsto> ''al'', ''imap_password'' \<mapsto> ''  '']"

text \<open>
  A reply of the extraction service: a JSON object with the three keys, given
  the JSON text of each value, between a leading fence with the word json and
  a trailing fence. \<open>dq\<close> puts text between double quotes.
\<close>

definition dq :: "string \<Rightarrow> string" where
  "dq s = CHR 0x22 # s @ [CHR 0x22]"

definition obj_text :: "string \<Rightarrow> string \<Rightarrow> string \<Rightarrow> string" where
  "obj_text t d a =
     ''{'' @ dq ''title'' @ '': '' @ t @ '', '' @ dq ''date'' @ '': '' @ d @ '', ''
       @ dq ''amount'' @ '': '' @ a @ ''}''"

definition fenced :: "string \<Rightarrow> string" where
  "fenced body = fence @ ''json'' @ [CHR 0x0A] @ body @ [CHR 0x0A] @ fence"

text \<open>A service that is configured, reads an empty file, replies \<open>reply\<close>,
  and whose \<^verbatim>\<open>json.loads\<close> decodes the text \<open>body\<close> to the object \<open>kvs\<close> and
  rejects every other text.\<close>

definition service :: "string \<Rightarrow> string \<Rightarrow> (string \<times> json) list \<Rightarrow> ai_env" where
  "service reply body kvs =
     \<lparr>configure = None,
      read_file = (\<lambda>p. Inr []),
      generate = (\<lambda>mime file_data. Inr reply),
      json_loads = (\<lambda>s. if s = body then Inr (JDict kvs) else Inl JSONDecodeError),
      list_models = None\<rparr>"

text \<open>A service whose network call fails.\<close>

definition service_down :: ai_env where
  "service_down =
     \<lparr>configure = None,
      read_file = (\<lambda>p. Inr []),
      generate = (\<lambda>mime file_data. Inl (OtherError ''ConnectionError'')),
      json_loads = (\<lambda>s. Inl JSONDecodeError),
      list_models = Some (OtherError ''ConnectionError'')\<rparr>"

text \<open>Three replies: a date written month first with the amount 120.5 (bit
  pattern \<open>0x405E200000000000\<close>); a date with a one-digit month and day and
  an amount that is no number; and an empty title with the amount 0.00.\<close>

definition body_slashes :: string where
  "body_slashes = obj_text (dq ''ACME'') (dq ''03/14/2024'') ''120.5''"

definition kvs_slashes :: "(string \<times> json) list" where
  "kvs_slashes = [(''title'', JStr ''ACME''), (''date'', JStr ''03/14/2024''),
                  (''amount'', JFloat 0x405E200000000000)]"

definition body_loose :: string where
  "body_loose = obj_text (dq ''ACME'') (dq ''2024-3-4'') (dq ''n/a'')"

definition kvs_loose :: "(string \<times> json) list" where
  "kvs_loose = [(''title'', JStr ''ACME''), (''date'', JStr ''2024-3-4''),
                (''amount'', JStr ''n/a'')]"

definition body_zero :: string where
  "body_zero = obj_text (dq []) ''null'' ''0.00''"

definition kvs_zero :: "(string \<times> json) list" where
  "kvs_zero = [(''title'', JStr []), (''date'', JNull), (''amount'', JFloat 0)]"

text \<open>Mailbox samples: what is observed for an attachment on 2024-03-14
  (ordinal 738959) at the Unix time 1700000000 with the service \<open>env\<close>, the
  same with a failing file write, an invoice, a second one, a document that
  is no PDF, and a state with no bills, no files and no calls.\<close>

definition world_of :: "ai_env \<Rightarrow> world" where
  "world_of env = \<lparr>now_ts = 1700000000, write_error = None, today = 738959,
                   ai = env, commit_error = None\<rparr>"

definition world_unwritable :: world where
  "world_unwritable = \<lparr>now_ts = 1700000000, write_error = Some OSError, today = 738959,
                       ai = service_down, commit_error = None\<rparr>"

definition att_invoice :: attachment where
  "att_invoice = \<lparr>att_filename = Some ''invoice.pdf'', payload = [37, 80, 68, 70]\<rparr>"

definition att_second :: attachment where
  "att_second = \<lparr>att_filename = Some ''sub/second.PDF'', payload = [37, 80, 68, 70]\<rparr>"

definition att_docx :: attachment where
  "att_docx = \<lparr>att_filename = Some ''letter.docx'', payload = [80, 75]\<rparr>"

definition state0 :: state where
  "state0 = \<lparr>store = \<lparr>users = [alice, bob], bills = [], bill_files = []\<rparr>,
             uploads = Map.empty, sent = []\<rparr>"

text \<open>A message with a document and an invoice, one with a document only,
  one whose second attachment cannot be written after the first was
  committed, a mailbox holding the first, and a state whose store already
  has a bill under the stored name the invoice gets.\<close>

definition msg_acme :: message where
  "msg_acme = \<lparr>subject = ''Ihre Rechnung'',
     attachments = [(att_docx, world_of service_down),
                    (att_invoice, world_of (service (fenced body_slashes) body_slashes kvs_slashes))]\<rparr>"

definition msg_docx :: message where
  "msg_docx = \<lparr>subject = ''Brief'', attachments = [(att_docx, world_of service_down)]\<rparr>"

definition msg_partial :: message where
  "msg_partial = \<lparr>subject = ''Rechnungen'',
     attachments = [(att_invoice, world_of service_down), (att_second, world_unwritable)]\<rparr>"

definition mailbox_acme :: mailbox where
  "mailbox_acme = \<lparr>login_error = None, unseen = [msg_acme]\<rparr>"

definition state_dup :: state where
  "state_dup = \<lparr>store = \<lparr>users = [alice, bob],
       bills = [\<lparr>bid = 7, title = JStr ''Alt'', filename = ''1700000000_invoice.pdf'',
                 amount = JNull, status = ''offen'', due_date = None, user_id = 2\<rparr>],
       bill_files = []\<rparr>,
     uploads = Map.empty, sent = []\<rparr>"

text \<open>
  The fields the specification, read with Python's truthiness, gives a bill
  made from an attachment: the due date is the extracted date if there is
  one and \<open>default_due\<close> otherwise; the title is the extracted title if it is
  truthy and the subject cut to 100 characters otherwise; the amount is the
  extracted amount if it is truthy and \<^verbatim>\<open>None\<close> otherwise.
\<close>

definition resolved_fields :: "date \<Rightarrow> string \<Rightarrow> extraction option \<Rightarrow> bill \<Rightarrow> bool" where
  "resolved_fields default_due subj ai_data b =
     (due_date b = Some (case ai_data of
                           Some r \<Rightarrow> (case date_field r of Some dt \<Rightarrow> dt | None \<Rightarrow> default_due)
                         | None \<Rightarrow> default_due)
      \<and> title b = (case ai_data of
                     Some r \<Rightarrow> (if truthy (title_field r) then title_field r
                                else JStr (take 100 subj))
                   | None \<Rightarrow> JStr (take 100 subj))
      \<and> amount b = (case ai_data of
                      Some r \<Rightarrow> (if truthy (amount_field r) then amount_field r else JNull)
                    | None \<Rightarrow> JNull))"

text \<open>File samples: a store in which a bill of the first account has two
  files (the first under the bill's own stored name, as an upload makes
  them) and a bill of the second account has none; an upload folder with the
  three files; a file system on which every removal works, and one on which
  the removal of the first file fails.\<close>

definition db_files :: db where
  "db_files = \<lparr>users = [alice, bob],
     bills = [\<lparr>bid = 1, title = JStr ''Strom'', filename = ''manual_1_0.pdf'', amount = JNull,
               status = ''offen'', due_date = None, user_id = 1\<rparr>,
              \<lparr>bid = 2, title = JStr ''Miete'', filename = ''17_x.pdf'', amount = JNull,
               status = ''offen'', due_date = None, user_id = 2\<rparr>],
     bill_files = [\<lparr>fid = 1, bill_id = 1, file_name = ''manual_1_0.pdf''\<rparr>,
                   \<lparr>fid = 2, bill_id = 1, file_name = ''manual_1_1.png''\<rparr>]\<rparr>"

definition disk_files :: disk where
  "disk_files = [''manual_1_0.pdf'' \<mapsto> [37, 80], ''manual_1_1.png'' \<mapsto> [137, 80],
                 ''17_x.pdf'' \<mapsto> [37, 80, 68]]"

definition rm_works :: "string \<Rightarrow> exn option" where
  "rm_works = (\<lambda>fname. None)"

definition rm_busy :: "string \<Rightarrow> exn option" where
  "rm_busy = (\<lambda>fname. if fname = ''manual_1_0.pdf'' then Some OSError else None)"

text \<open>
  What the specification, read with Python's truthiness, says of the bill \<open>b\<close>
  made from the attachment \<open>aw\<close> of a message with the subject \<open>subj\<close>: the
  attachment is a PDF; the bill is stored under the name that attachment was
  saved under and belongs to the owning user; and its fields are resolved
  from the extraction result of that same attachment, with the day the
  attachment was handled plus 30 days as the default due date.
\<close>

definition made_from :: "config \<Rightarrow> user \<Rightarrow> string \<Rightarrow> attachment \<times> world \<Rightarrow> bill \<Rightarrow> bool" where
  "made_from cfg own subj aw b =
     (is_pdf (fst aw)
      \<and> filename b = secure_name_of (snd aw) (fst aw)
      \<and> user_id b = uid own
      \<and> status b = ''offen''
      \<and> resolved_fields (today (snd aw) + 30) subj
           (case analyze_bill_ai cfg (ai (snd aw)) (save_path_of cfg (snd aw) (fst aw)) of
              Inr ai_data \<Rightarrow> ai_data
            | Inl e \<Rightarrow> None) b)"

text \<open>The attachments of a list of messages in the order the job meets
  them, each with the subject of its message.\<close>

definition all_attachments :: "message list \<Rightarrow> (string \<times> attachment \<times> world) list" where
  "all_attachments msgs = concat (map (\<lambda>msg. map (Pair (subject msg)) (attachments msg)) msgs)"

text \<open>A second invoice, and a mailbox with one message that carries a
  document and the two invoices, each invoice with a reply of its own.\<close>

definition att_other :: attachment where
  "att_other = \<lparr>att_filename = Some ''other.pdf'', payload = [37, 80, 68, 70, 45]\<rparr>"

definition mailbox_two :: mailbox where
  "mailbox_two = \<lparr>login_error = None,
     unseen = [\<lparr>subject = ''Zwei Rechnungen'',
       attachments =
         [(att_docx, world_of service_down),
          (att_invoice, world_of (service (fenced body_slashes) body_slashes kvs_slashes)),
          (att_other, world_of (service (fenced body_loose) body_loose kvs_loose))]\<rparr>]\<rparr>"

section \<open>Theorems\<close>

subsection \<open>Helper lemmas\<close>

lemma all_dropWhile: "(\<forall>x\<in>set (dropWhile P s). P x) \<longleftrightarrow> (\<forall>c\<in>set s. P c)"
  by (induction s) auto

lemma strip_empty_iff: "strip s = [] \<longleftrightarrow> (\<forall>c\<in>set s. isspace c)"
  by (simp add: strip_def dropWhile_eq_Nil_conv all_dropWhile)

subsection \<open>The reminder job\<close>

text \<open>
  Claim C1. One run of \<^verbatim>\<open>check_due_dates\<close> makes, bill by bill in table
  order, exactly these calls of \<^verbatim>\<open>send_notification\<close>: for an open bill with
  a due date, one overdue notice to the bill's owner when the due date minus
  the current date is at most 0, one reminder to the owner when it is exactly 3, and
  none for any other value; for a bill that is not open or has no due date,
  none.
\<close>

theorem check_due_dates_classifies:
  "check_due_dates d day =
     concat (map (\<lambda>b.
       if status b = ''offen'' then
         (case due_date b of
            None \<Rightarrow> []
          | Some due \<Rightarrow>
              if due - day \<le> 0 then [(Overdue (title b) due, owner d b)]
              else if due - day = 3 then [(Reminder (title b), owner d b)]
              else [])
       else []) (bills d))"
proof -
  have "check_loop d day (filter (\<lambda>b. status b = ''offen'') bs) =
          concat (map (\<lambda>b.
       if status b = ''offen'' then
         (case due_date b of
            None \<Rightarrow> []
          | Some due \<Rightarrow>
              if due - day \<le> 0 then [(Overdue (title b) due, owner d b)]
              else if due - day = 3 then [(Reminder (title b), owner d b)]
              else [])
       else []) bs)" for bs
    by (induction bs) (simp_all add: check_bill_def Let_def split: option.splits)
  then show ?thesis by (simp add: check_due_dates_def)
qed

theorem check_due_dates_classifies_witness:
  "check_due_dates reminder_db 738959 =
     [(Overdue (JStr ''Strom'') 738959, Some alice), (Reminder (JStr ''Miete''), Some bob)]"
  using check_due_dates_classifies [of reminder_db 738959]
  by (simp add: reminder_db_def owner_def alice_def bob_def)

subsection \<open>The notification dispatcher\<close>

text \<open>
  Claim C7. \<^verbatim>\<open>send_notification\<close> with a user whose personal endpoint is set
  attempts that endpoint and no other; with no user or a user without an
  endpoint it attempts the process-wide fallback endpoint alone when one is
  configured, and nothing when none is; and it returns to its caller
  whatever the deliveries raise.
\<close>

theorem send_notification_resolution:
  "(\<forall>u url. usr = Some u \<and> notify_url u = Some url \<and> url \<noteq> [] \<longrightarrow>
      send_notification cfg deliver n usr = Inr [(url, deliver url n)])
   \<and> (\<forall>g. (usr = None \<or> (\<exists>u. usr = Some u \<and> \<not> truthy_str (notify_url u)))
          \<and> NOTIFY_URL cfg = Some g \<and> g \<noteq> [] \<longrightarrow>
      send_notification cfg deliver n usr = Inr [(g, deliver g n)])
   \<and> ((usr = None \<or> (\<exists>u. usr = Some u \<and> \<not> truthy_str (notify_url u)))
          \<and> \<not> truthy_str (NOTIFY_URL cfg) \<longrightarrow>
      send_notification cfg deliver n usr = Inr [])
   \<and> (\<exists>r. send_notification cfg deliver n usr = Inr r)"
  by (auto simp: send_notification_def resolve_urls_def Let_def split: option.splits)

theorem send_notification_resolution_witness:
  "send_notification cfg_fallback failing_backend TestNote (Some alice)
     = Inr [(''mailto://alice'', Some OSError)]
   \<and> send_notification cfg_fallback failing_backend TestNote (Some bob)
     = Inr [(''json://fallback'', Some OSError)]
   \<and> send_notification cfg_plain failing_backend TestNote None = Inr []"
proof -
  have a: "notify_url alice = Some ''mailto://alice''" by (simp add: alice_def)
  have b: "\<not> truthy_str (notify_url bob)" by (simp add: bob_def)
  have f: "NOTIFY_URL cfg_fallback = Some ''json://fallback''" by (simp add: cfg_fallback_def)
  have p: "\<not> truthy_str (NOTIFY_URL cfg_plain)" by (simp add: cfg_plain_def)
  show ?thesis
    using a b f p
      send_notification_resolution [of "Some alice" cfg_fallback failing_backend TestNote]
      send_notification_resolution [of "Some bob" cfg_fallback failing_backend TestNote]
      send_notification_resolution [of None cfg_plain failing_backend TestNote]
    by (simp add: failing_backend_def)
qed

subsection \<open>The settings handler\<close>

text \<open>
  Claim C10. A settings update whose submitted mailbox password is empty or
  consists of whitespace only overwrites the notification endpoint, the
  mailbox server and the mailbox user name with the submitted values and
  leaves the stored mailbox password and every other field of the user as
  they were.
\<close>

theorem settings_blank_password:
  assumes "frm ''imap_password'' = Some pw" and "\<forall>c\<in>set pw. isspace c"
  shows "settings POST frm u =
           (u\<lparr>notify_url := frm ''notify_url'',
              imap_server := frm ''imap_server'',
              imap_user := frm ''imap_user''\<rparr>, Redirect)"
  using assms by (simp add: settings_def Let_def strip_empty_iff)

theorem settings_blank_password_witness:
  "blank_form ''imap_password'' = Some ''  '' \<and> list_all isspace ''  ''
   \<and> settings POST blank_form alice =
       (alice\<lparr>notify_url := Some '''', imap_server := Some ''mail.example.org'',
              imap_user := Some ''al''\<rparr>, Redirect)
   \<and> imap_password (fst (settings POST blank_form alice)) = Some ''secret''"
proof -
  have h1: "blank_form ''imap_password'' = Some ''  ''" by (simp add: blank_form_def)
  have h2: "\<forall>c\<in>set ''  ''. isspace c" by (simp add: isspace_def)
  show ?thesis
    using h1 h2 settings_blank_password [of blank_form "''  ''" alice]
    by (simp add: blank_form_def alice_def list_all_iff)
qed

subsection \<open>The extraction client\<close>

lemma strip_keep:
  assumes "s \<noteq> []" "\<not> isspace (hd s)" "\<not> isspace (last s)"
  shows "strip s = s"
proof -
  have 1: "dropWhile isspace s = s" using assms by (cases s) auto
  have 2: "dropWhile isspace (rev s) = rev s"
    using assms by (cases "rev s") (auto simp: last_rev hd_rev)
  show ?thesis by (simp add: strip_def 1 2)
qed

lemma not_space_backquote: "\<not> isspace (CHR 0x60)"
  by (simp add: isspace_def)

lemma unfence_fenced: "unfence (fence @ ''json'' @ body @ fence) = body"
proof -
  let ?t = "fence @ ''json'' @ body @ fence"
  have s: "strip ?t = ?t"
    by (rule strip_keep) (simp_all add: fence_def not_space_backquote numeral_3_eq_3)
  have st: "startswith ?t (fence @ ''json'')" by (simp add: startswith_def)
  have d: "drop 7 ?t = body @ fence" by (simp add: fence_def)
  have e: "endswith (body @ fence) fence" by (simp add: endswith_def)
  show ?thesis
    by (simp only: unfence_def Let_def s st d e if_True) (simp add: fence_def)
qed

lemma analyze_returns: "\<exists>r. analyze_bill_ai cfg env p = Inr r"
  by (simp add: analyze_bill_ai_def split: sum.splits option.splits)

lemma analyze_inl_none:
  "analyze_body env p = Inl e \<Longrightarrow> analyze_bill_ai cfg env p = Inr None"
  by (simp add: analyze_bill_ai_def split: option.splits)

lemma analyze_none_none:
  "analyze_body env p = Inr None \<Longrightarrow> analyze_bill_ai cfg env p = Inr None"
  by (simp add: analyze_bill_ai_def split: option.splits)

lemma analyze_body_cases:
  "analyze_body env p = Inr None \<or> (\<exists>e. analyze_body env p = Inl e)
   \<or> (\<exists>res. analyze_body env p = Inr (Some res))"
  by (metis option.exhaust sum.exhaust_sel sum.collapse(1) sum.collapse(2))

text \<open>
  Claim C3. \<^verbatim>\<open>analyze_bill_ai\<close> returns on every input, an extraction result
  or \<^verbatim>\<open>None\<close>, and raises nothing to its caller. It returns \<^verbatim>\<open>None\<close> when
  the API key is not configured; when the path has no extension or one that
  is none of jpg, jpeg, png and pdf; when the network call raises; and when
  \<^verbatim>\<open>json.loads\<close> raises on the reply as stripped. Stripping a reply that
  starts with a fence and the word json and ends with a fence leaves what
  stands between the two.
\<close>

theorem analyze_bill_ai_fails_closed:
  "(\<exists>r. analyze_bill_ai cfg env p = Inr r)
   \<and> (\<not> truthy_str (GEMINI_API_KEY cfg) \<longrightarrow> analyze_bill_ai cfg env p = Inr None)
   \<and> ((case rsplit_dot_1 p of
          Inl e \<Rightarrow> True
        | Inr ext \<Rightarrow> lower ext \<notin> set [''jpg'', ''jpeg'', ''png'', ''pdf''])
        \<longrightarrow> analyze_bill_ai cfg env p = Inr None)
   \<and> (\<forall>ext mime file_data e.
         rsplit_dot_1 p = Inr ext \<and> mime_type_of (lower ext) = Some mime
         \<and> read_file env p = Inr file_data \<and> generate env mime file_data = Inl e
        \<longrightarrow> analyze_bill_ai cfg env p = Inr None)
   \<and> (\<forall>ext mime file_data text0 e.
         rsplit_dot_1 p = Inr ext \<and> mime_type_of (lower ext) = Some mime
         \<and> read_file env p = Inr file_data \<and> generate env mime file_data = Inr text0
         \<and> json_loads env (strip (unfence text0)) = Inl e
        \<longrightarrow> analyze_bill_ai cfg env p = Inr None)
   \<and> (\<forall>body. unfence (fence @ ''json'' @ body @ fence) = body)"
proof (intro conjI allI impI)
  show "\<exists>r. analyze_bill_ai cfg env p = Inr r" by (rule analyze_returns)
next
  assume "\<not> truthy_str (GEMINI_API_KEY cfg)"
  then show "analyze_bill_ai cfg env p = Inr None" by (simp add: analyze_bill_ai_def)
next
  assume h: "case rsplit_dot_1 p of Inl e \<Rightarrow> True
             | Inr ext \<Rightarrow> lower ext \<notin> set [''jpg'', ''jpeg'', ''png'', ''pdf'']"
  have "analyze_body env p = Inr None \<or> (\<exists>e. analyze_body env p = Inl e)"
    using h by (auto simp: analyze_body_def mime_type_of_def split: option.splits sum.splits)
  then show "analyze_bill_ai cfg env p = Inr None"
    using analyze_inl_none analyze_none_none by blast
next
  fix ext mime file_data e
  assume "rsplit_dot_1 p = Inr ext \<and> mime_type_of (lower ext) = Some mime
         \<and> read_file env p = Inr file_data \<and> generate env mime file_data = Inl e"
  then have "\<exists>e. analyze_body env p = Inl e"
    by (auto simp: analyze_body_def split: option.splits)
  then show "analyze_bill_ai cfg env p = Inr None"
    using analyze_inl_none by blast
next
  fix ext mime file_data text0 e
  assume "rsplit_dot_1 p = Inr ext \<and> mime_type_of (lower ext) = Some mime
         \<and> read_file env p = Inr file_data \<and> generate env mime file_data = Inr text0
         \<and> json_loads env (strip (unfence text0)) = Inl e"
  then have "analyze_body env p = Inr None \<or> (\<exists>e. analyze_body env p = Inl e)"
    by (cases e) (auto simp: analyze_body_def split: option.splits)
  then show "analyze_bill_ai cfg env p = Inr None"
    using analyze_inl_none analyze_none_none by blast
next
  fix body show "unfence (fence @ ''json'' @ body @ fence) = body" by (rule unfence_fenced)
qed

lemma rsplit_pdf: "rsplit_dot_1 ''/app/data/uploads/1_a.pdf'' = Inr ''pdf''"
  by (simp add: rsplit_dot_1_def)

lemma rsplit_docx: "rsplit_dot_1 ''/app/data/uploads/1_a.docx'' = Inr ''docx''"
  by (simp add: rsplit_dot_1_def)

lemma lower_pdf: "lower ''pdf'' = ''pdf''"
  by (simp add: lower_def lower_char_def)

lemma lower_docx: "lower ''docx'' = ''docx''"
  by (simp add: lower_def lower_char_def)

theorem analyze_bill_ai_fails_closed_witness:
  "analyze_bill_ai cfg_plain service_down ''/app/data/uploads/1_a.pdf'' = Inr None
   \<and> analyze_bill_ai cfg_fallback service_down ''/app/data/uploads/1_a.docx'' = Inr None
   \<and> analyze_bill_ai cfg_fallback service_down ''/app/data/uploads/1_a.pdf'' = Inr None
   \<and> analyze_bill_ai cfg_fallback (service ''Sorry, no invoice.'' body_zero kvs_zero)
        ''/app/data/uploads/1_a.pdf'' = Inr None"
proof -
  have k: "\<not> truthy_str (GEMINI_API_KEY cfg_plain)" by (simp add: cfg_plain_def)
  have m: "mime_type_of (lower ''pdf'') = Some ''application/pdf''"
    by (simp add: lower_pdf mime_type_of_def)
  have g: "generate service_down ''application/pdf'' [] = Inl (OtherError ''ConnectionError'')"
    by (simp add: service_down_def)
  have r: "read_file service_down ''/app/data/uploads/1_a.pdf'' = Inr []"
    by (simp add: service_down_def)
  let ?sv = "service ''Sorry, no invoice.'' body_zero kvs_zero"
  have r2: "read_file ?sv ''/app/data/uploads/1_a.pdf'' = Inr []"
    by (simp add: service_def)
  have g2: "generate ?sv ''application/pdf'' [] = Inr ''Sorry, no invoice.''"
    by (simp add: service_def)
  have j2: "json_loads ?sv (strip (unfence ''Sorry, no invoice.'')) = Inl JSONDecodeError"
    by (simp add: service_def body_zero_def obj_text_def dq_def unfence_def Let_def strip_def
        fence_def startswith_def endswith_def isspace_def numeral_3_eq_3)
  show ?thesis
    using k m g r r2 g2 j2 rsplit_pdf rsplit_docx lower_docx
      analyze_bill_ai_fails_closed [of cfg_plain service_down "''/app/data/uploads/1_a.pdf''"]
      analyze_bill_ai_fails_closed [of cfg_fallback service_down "''/app/data/uploads/1_a.docx''"]
      analyze_bill_ai_fails_closed [of cfg_fallback service_down "''/app/data/uploads/1_a.pdf''"]
      analyze_bill_ai_fails_closed [of cfg_fallback ?sv "''/app/data/uploads/1_a.pdf''"]
    by simp
qed

lemma analyze_object:
  assumes "truthy_str (GEMINI_API_KEY cfg)" "configure env = None"
    "rsplit_dot_1 p = Inr ext" "mime_type_of (lower ext) = Some mime"
    "read_file env p = Inr file_data" "generate env mime file_data = Inr text0"
    "json_loads env (strip (unfence text0)) = Inr data"
  shows "analyze_bill_ai cfg env p =
           (case build_result data of Inl e \<Rightarrow> Inr None | Inr res \<Rightarrow> Inr (Some res))"
  using assms
  by (simp add: analyze_bill_ai_def analyze_body_def split: sum.splits option.splits)

lemma build_result_no_date:
  "\<not> truthy (dict_get kvs ''date'') \<Longrightarrow>
   build_result (JDict kvs) =
     Inr \<lparr>date_field = None, title_field = dict_get kvs ''title'',
          amount_field = dict_get kvs ''amount''\<rparr>"
  by (simp add: build_result_def)

lemma strptime_only_ValueError: "strptime_ymd s = Inl e \<Longrightarrow> e = ValueError"
  by (auto simp: strptime_ymd_def Let_def split: option.splits if_splits)

lemma build_result_date_str:
  "s \<noteq> [] \<Longrightarrow> dict_get kvs ''date'' = JStr s \<Longrightarrow>
   build_result (JDict kvs) =
     Inr \<lparr>date_field = (case strptime_ymd s of Inr dt \<Rightarrow> Some dt | Inl e \<Rightarrow> None),
          title_field = dict_get kvs ''title'',
          amount_field = dict_get kvs ''amount''\<rparr>"
  by (auto simp: build_result_def split: sum.splits exn.splits dest: strptime_only_ValueError)

text \<open>What the matcher finds is a prefix of the text.\<close>

lemma rx_match_Chr: "(m, r) \<in> set (rx_match (Chr c) s) \<longleftrightarrow> m = [c] \<and> s = c # r"
  by (auto split: list.splits)

lemma rx_match_Rng:
  "(m, r) \<in> set (rx_match (Rng lo hi) s) \<Longrightarrow> length m = 1 \<and> s = m @ r"
  by (auto split: list.splits if_splits)

lemma rx_match_Seq:
  "(m, r) \<in> set (rx_match (Seq a b) s) \<longleftrightarrow>
     (\<exists>m1 r1 m2. (m1, r1) \<in> set (rx_match a s) \<and> (m2, r) \<in> set (rx_match b r1) \<and> m = m1 @ m2)"
  by force

lemma rx_match_Alt:
  "(m, r) \<in> set (rx_match (Alt a b) s) \<longleftrightarrow>
     (m, r) \<in> set (rx_match a s) \<or> (m, r) \<in> set (rx_match b s)"
  by simp

lemma rx_Y_shape: "(m, r) \<in> set (rx_match rx_Y s) \<Longrightarrow> length m = 4 \<and> s = m @ r"
  unfolding rx_Y_def rx_digit_def rx_match_Seq
  by (auto dest!: rx_match_Rng)

lemma rx_m_shape:
  "(m, r) \<in> set (rx_match rx_m s) \<Longrightarrow> (length m = 1 \<or> length m = 2) \<and> s = m @ r"
  unfolding rx_m_def rx_match_Seq rx_match_Alt rx_match_Chr
  by (auto dest!: rx_match_Rng)

lemma rx_d_shape:
  "(m, r) \<in> set (rx_match rx_d s) \<Longrightarrow> (length m = 1 \<or> length m = 2) \<and> s = m @ r"
  unfolding rx_d_def rx_digit_def rx_match_Seq rx_match_Alt rx_match_Chr
  by (auto dest!: rx_match_Rng)



lemma first_in_set: "(case xs of [] \<Rightarrow> None | x # _ \<Rightarrow> Some x) = Some y \<Longrightarrow> y \<in> set xs"
  by (cases xs) auto

lemma in_concat_map:
  "z \<in> set (concat (map (\<lambda>(a, b). f a b) xs)) \<longleftrightarrow> (\<exists>a b. (a, b) \<in> set xs \<and> z \<in> set (f a b))"
  by auto

lemma in_map_pair:
  "z \<in> set (map (\<lambda>(a, b). g a b) xs) \<longleftrightarrow> (\<exists>a b. (a, b) \<in> set xs \<and> z = g a b)"
  by force

lemma ymd_match_parts:
  assumes "ymd_match s = Some (gy, gm, gd, rest)"
  shows "\<exists>r1 r2 r3 r4 x1 x2.
    (gy, r1) \<in> set (rx_match rx_Y s)
    \<and> (x1, r2) \<in> set (rx_match (Chr (CHR ''-'')) r1)
    \<and> (gm, r3) \<in> set (rx_match rx_m r2)
    \<and> (x2, r4) \<in> set (rx_match (Chr (CHR ''-'')) r3)
    \<and> (gd, rest) \<in> set (rx_match rx_d r4)"
proof -
  have "(gy, gm, gd, rest) \<in> set (concat (map (\<lambda>(y, r1).
             concat (map (\<lambda>(_, r2).
               concat (map (\<lambda>(m, r3).
                 concat (map (\<lambda>(_, r4).
                   map (\<lambda>(d, r5). (y, m, d, r5)) (rx_match rx_d r4))
                 (rx_match (Chr (CHR ''-'')) r3)))
               (rx_match rx_m r2)))
             (rx_match (Chr (CHR ''-'')) r1)))
           (rx_match rx_Y s)))"
    using assms unfolding ymd_match_def by (rule first_in_set)
  then show ?thesis
    unfolding in_concat_map in_map_pair by blast
qed

lemma ymd_match_shape:
  assumes "ymd_match s = Some (gy, gm, gd, rest)"
  shows "s = gy @ ''-'' @ gm @ ''-'' @ gd @ rest \<and> length gy = 4
         \<and> (length gm = 1 \<or> length gm = 2) \<and> (length gd = 1 \<or> length gd = 2)"
proof -
  from ymd_match_parts [OF assms] obtain r1 r2 r3 r4 x1 x2 where
    y: "(gy, r1) \<in> set (rx_match rx_Y s)" and
    d1: "(x1, r2) \<in> set (rx_match (Chr (CHR ''-'')) r1)" and
    m: "(gm, r3) \<in> set (rx_match rx_m r2)" and
    d2: "(x2, r4) \<in> set (rx_match (Chr (CHR ''-'')) r3)" and
    d: "(gd, rest) \<in> set (rx_match rx_d r4)"
    by blast
  from rx_Y_shape [OF y] rx_m_shape [OF m] rx_d_shape [OF d] d1 d2
  show ?thesis by (simp add: rx_match_Chr)
qed

lemma strptime_shape:
  assumes "strptime_ymd s = Inr dt"
  shows "\<exists>gy gm gd. s = gy @ ''-'' @ gm @ ''-'' @ gd \<and> length gy = 4
         \<and> (length gm = 1 \<or> length gm = 2) \<and> (length gd = 1 \<or> length gd = 2)"
proof -
  from assms obtain gy gm gd where "ymd_match s = Some (gy, gm, gd, [])"
    by (auto simp: strptime_ymd_def Let_def split: option.splits if_splits)
  from ymd_match_shape [OF this] show ?thesis by auto
qed

lemma mime_pdf: "mime_type_of (lower ''pdf'') = Some ''application/pdf''"
  by (simp add: lower_pdf mime_type_of_def)

lemma key_fallback: "truthy_str (GEMINI_API_KEY cfg_fallback)"
  by (simp add: cfg_fallback_def)

lemma strp_loose: "strptime_ymd ''2024-3-4'' = Inr 738949"
  by code_simp

lemma strp_slashes: "strptime_ymd ''03/14/2024'' = Inl ValueError"
  by code_simp

lemma strip_loose: "strip (unfence (fenced body_loose)) = body_loose"
  by code_simp

lemma strip_slashes: "strip (unfence (fenced body_slashes)) = body_slashes"
  by code_simp

lemma strptime_empty: "strptime_ymd [] = Inl ValueError"
  by code_simp

text \<open>
  Claim C2, as the code has it. When the reply decodes to a JSON object whose
  \<^verbatim>\<open>date\<close> value is falsy (missing, null, empty, zero, false) or is a string,
  \<^verbatim>\<open>analyze_bill_ai\<close> returns a result whose title and amount are the
  object's \<^verbatim>\<open>title\<close> and \<^verbatim>\<open>amount\<close> values as they are (nothing checks that
  the amount is a number), whatever becomes of that date: a falsy date leaves
  the date field absent, and a date string is kept when \<^verbatim>\<open>strptime\<close> with the
  format \<^verbatim>\<open>%Y-%m-%d\<close> accepts it and dropped when it raises \<^verbatim>\<open>ValueError\<close>.
  Every accepted string is a year of four characters, a dash, a month of one
  or two characters, a dash and a day of one or two characters. A date value
  that is truthy and no string is not covered by this statement.
\<close>

theorem analyze_bill_ai_fields:
  assumes "truthy_str (GEMINI_API_KEY cfg)" and "configure env = None"
    and "rsplit_dot_1 p = Inr ext" and "mime_type_of (lower ext) = Some mime"
    and "read_file env p = Inr file_data" and "generate env mime file_data = Inr text0"
    and "json_loads env (strip (unfence text0)) = Inr (JDict kvs)"
  shows "(\<not> truthy (dict_get kvs ''date'') \<longrightarrow>
            analyze_bill_ai cfg env p =
              Inr (Some \<lparr>date_field = None, title_field = dict_get kvs ''title'',
                         amount_field = dict_get kvs ''amount''\<rparr>))
       \<and> (\<forall>s. dict_get kvs ''date'' = JStr s \<longrightarrow>
            analyze_bill_ai cfg env p =
              Inr (Some \<lparr>date_field = (case strptime_ymd s of Inr dt \<Rightarrow> Some dt | Inl e \<Rightarrow> None),
                         title_field = dict_get kvs ''title'',
                         amount_field = dict_get kvs ''amount''\<rparr>))
       \<and> (\<forall>s dt. strptime_ymd s = Inr dt \<longrightarrow>
            (\<exists>gy gm gd. s = gy @ ''-'' @ gm @ ''-'' @ gd \<and> length gy = 4
               \<and> (length gm = 1 \<or> length gm = 2) \<and> (length gd = 1 \<or> length gd = 2)))"
proof (intro conjI allI impI)
  assume "\<not> truthy (dict_get kvs ''date'')"
  then show "analyze_bill_ai cfg env p =
              Inr (Some \<lparr>date_field = None, title_field = dict_get kvs ''title'',
                         amount_field = dict_get kvs ''amount''\<rparr>)"
    by (simp add: analyze_object [OF assms] build_result_no_date)
next
  fix s assume d: "dict_get kvs ''date'' = JStr s"
  have "build_result (JDict kvs) =
     Inr \<lparr>date_field = (case strptime_ymd s of Inr dt \<Rightarrow> Some dt | Inl e \<Rightarrow> None),
          title_field = dict_get kvs ''title'',
          amount_field = dict_get kvs ''amount''\<rparr>"
  proof (cases "s = []")
    case True
    with d have "\<not> truthy (dict_get kvs ''date'')" by simp
    from build_result_no_date [OF this] True show ?thesis by (simp add: strptime_empty)
  next
    case False
    with d show ?thesis using build_result_date_str [of s kvs] by blast
  qed
  then show "analyze_bill_ai cfg env p =
              Inr (Some \<lparr>date_field = (case strptime_ymd s of Inr dt \<Rightarrow> Some dt | Inl e \<Rightarrow> None),
                         title_field = dict_get kvs ''title'',
                         amount_field = dict_get kvs ''amount''\<rparr>)"
    by (simp add: analyze_object [OF assms])
next
  fix s dt assume "strptime_ymd s = Inr dt"
  then show "\<exists>gy gm gd. s = gy @ ''-'' @ gm @ ''-'' @ gd \<and> length gy = 4
               \<and> (length gm = 1 \<or> length gm = 2) \<and> (length gd = 1 \<or> length gd = 2)"
    by (rule strptime_shape)
qed

theorem analyze_bill_ai_fields_witness:
  "analyze_bill_ai cfg_fallback (service (fenced body_slashes) body_slashes kvs_slashes)
     ''/app/data/uploads/1_a.pdf'' =
   Inr (Some \<lparr>date_field = None, title_field = JStr ''ACME'',
              amount_field = JFloat 0x405E200000000000\<rparr>)"
proof -
  let ?env = "service (fenced body_slashes) body_slashes kvs_slashes"
  have c: "configure ?env = None" by (simp add: service_def)
  have r: "read_file ?env ''/app/data/uploads/1_a.pdf'' = Inr []" by (simp add: service_def)
  have g: "generate ?env ''application/pdf'' [] = Inr (fenced body_slashes)"
    by (simp add: service_def)
  have j: "json_loads ?env (strip (unfence (fenced body_slashes))) = Inr (JDict kvs_slashes)"
    by (simp add: strip_slashes service_def)
  have d: "dict_get kvs_slashes ''date'' = JStr ''03/14/2024''"
    by (simp add: dict_get_def kvs_slashes_def)
  have t: "dict_get kvs_slashes ''title'' = JStr ''ACME''"
    by (simp add: dict_get_def kvs_slashes_def)
  have a: "dict_get kvs_slashes ''amount'' = JFloat 0x405E200000000000"
    by (simp add: dict_get_def kvs_slashes_def)
  show ?thesis
    using analyze_bill_ai_fields [OF key_fallback c rsplit_pdf mime_pdf r g j] d t a strp_slashes
    by simp
qed

text \<open>The claim as stated fails on a reply whose amount is the text n/a and
  whose date is 2024-3-4: the amount is returned as it is, and the date,
  which is not of the form YYYY-MM-DD, is kept as the fourth of March 2024
  (ordinal 738949).\<close>

theorem analyze_bill_ai_fields_counterexample:
  "analyze_bill_ai cfg_fallback (service (fenced body_loose) body_loose kvs_loose)
     ''/app/data/uploads/1_a.pdf'' =
   Inr (Some \<lparr>date_field = Some 738949, title_field = JStr ''ACME'',
              amount_field = JStr ''n/a''\<rparr>)"
proof -
  let ?env = "service (fenced body_loose) body_loose kvs_loose"
  have c: "configure ?env = None" by (simp add: service_def)
  have r: "read_file ?env ''/app/data/uploads/1_a.pdf'' = Inr []" by (simp add: service_def)
  have g: "generate ?env ''application/pdf'' [] = Inr (fenced body_loose)"
    by (simp add: service_def)
  have j: "json_loads ?env (strip (unfence (fenced body_loose))) = Inr (JDict kvs_loose)"
    by (simp add: strip_loose service_def)
  have d: "dict_get kvs_loose ''date'' = JStr ''2024-3-4''"
    by (simp add: dict_get_def kvs_loose_def)
  have t: "dict_get kvs_loose ''title'' = JStr ''ACME''"
    by (simp add: dict_get_def kvs_loose_def)
  have a: "dict_get kvs_loose ''amount'' = JStr ''n/a''"
    by (simp add: dict_get_def kvs_loose_def)
  have b: "build_result (JDict kvs_loose) =
             Inr \<lparr>date_field = Some 738949, title_field = JStr ''ACME'',
                  amount_field = JStr ''n/a''\<rparr>"
    using build_result_date_str [of "''2024-3-4''" kvs_loose] d t a strp_loose by simp
  show ?thesis
    by (simp add: analyze_object [OF key_fallback c rsplit_pdf mime_pdf r g j] b)
qed

subsection \<open>The mailbox job\<close>

lemma new_bill_resolved:
  "resolved_fields default_due subj ai_data
     ((new_bill own subj sname default_due ai_data)\<lparr>bid := i\<rparr>)"
  by (simp add: resolved_fields_def new_bill_def Let_def split: option.splits)

lemma commit_bill_Inr:
  "commit_bill d fault b = Inr d1 \<Longrightarrow>
     d1 = d\<lparr>bills := bills d @ [b\<lparr>bid := next_bid d\<rparr>]\<rparr>"
  by (auto simp: commit_bill_def split: option.splits if_splits)

text \<open>One pass of the loop body: either it leaves the store as it was, or
  it appends the one bill built from the attachment.\<close>

lemma process_attachment_store:
  assumes "process_attachment cfg own subj st aw = (st1, committed, err)"
  shows "sent st1 = sent st
    \<and> (\<not> committed \<longrightarrow> store st1 = store st)
    \<and> (committed \<longrightarrow> err = None \<and> is_pdf (fst aw)
         \<and> (\<exists>ai_data. analyze_bill_ai cfg (ai (snd aw)) (save_path_of cfg (snd aw) (fst aw))
                          = Inr ai_data
              \<and> store st1 = (store st)\<lparr>bills := bills (store st) @
                   [(new_bill own subj (secure_name_of (snd aw) (fst aw))
                       (today (snd aw) + 30) ai_data)\<lparr>bid := next_bid (store st)\<rparr>]\<rparr>))"
  using assms
  by (auto simp: process_attachment_def Let_def
           split: if_splits option.splits sum.splits dest!: commit_bill_Inr)

lemma process_attachment_not_pdf:
  "\<not> is_pdf (fst aw) \<Longrightarrow> process_attachment cfg own subj st aw = (st, False, None)"
  by (simp add: process_attachment_def Let_def)


text \<open>The inner loop appends bills, each built from one of the PDF
  attachments, makes no call, and ends with the flag set exactly when it was
  set before or a bill was appended.\<close>

lemma attachments_loop_effect:
  assumes "attachments_loop cfg own subj st found aws = (st1, found1, err)"
  shows "sent st1 = sent st
    \<and> (\<exists>new. bills (store st1) = bills (store st) @ new
          \<and> (found1 \<longleftrightarrow> found \<or> new \<noteq> [])
          \<and> (\<forall>b\<in>set new. \<exists>aw\<in>set aws. is_pdf (fst aw)
                \<and> (\<exists>ai_data.
                      analyze_bill_ai cfg (ai (snd aw)) (save_path_of cfg (snd aw) (fst aw))
                        = Inr ai_data
                      \<and> resolved_fields (today (snd aw) + 30) subj ai_data b)))"
  using assms
proof (induction aws arbitrary: st found)
  case Nil
  then show ?case by simp
next
  case (Cons aw rest)
  obtain sa c e where pa: "process_attachment cfg own subj st aw = (sa, c, e)"
    by (cases "process_attachment cfg own subj st aw") auto
  note eff = process_attachment_store [OF pa]
  have step: "sent sa = sent st \<and> (\<exists>new. bills (store sa) = bills (store st) @ new
          \<and> (c \<longleftrightarrow> new \<noteq> [])
          \<and> (\<forall>b\<in>set new. is_pdf (fst aw)
                \<and> (\<exists>ai_data.
                      analyze_bill_ai cfg (ai (snd aw)) (save_path_of cfg (snd aw) (fst aw))
                        = Inr ai_data
                      \<and> resolved_fields (today (snd aw) + 30) subj ai_data b)))"
  proof (cases c)
    case True
    with eff obtain ai_data where
      a: "analyze_bill_ai cfg (ai (snd aw)) (save_path_of cfg (snd aw) (fst aw)) = Inr ai_data"
      and s: "store sa = (store st)\<lparr>bills := bills (store st) @
                   [(new_bill own subj (secure_name_of (snd aw) (fst aw))
                       (today (snd aw) + 30) ai_data)\<lparr>bid := next_bid (store st)\<rparr>]\<rparr>"
      and p: "is_pdf (fst aw)"
      by blast
    show ?thesis
      using eff True a p new_bill_resolved
      by (simp add: s)
  next
    case False
    with eff show ?thesis by simp
  qed
  show ?case
  proof (cases e)
    case (Some x)
    with Cons.prems pa have "st1 = sa" "found1 = (found \<or> c)" by auto
    with step show ?thesis by auto
  next
    case None
    with Cons.prems pa have
      "attachments_loop cfg own subj sa (found \<or> c) rest = (st1, found1, err)" by simp
    from Cons.IH [OF this] obtain new2 where
      r: "sent st1 = sent sa" "bills (store st1) = bills (store sa) @ new2"
         "found1 \<longleftrightarrow> (found \<or> c) \<or> new2 \<noteq> []"
         "\<forall>b\<in>set new2. \<exists>aw\<in>set rest. is_pdf (fst aw)
                \<and> (\<exists>ai_data.
                      analyze_bill_ai cfg (ai (snd aw)) (save_path_of cfg (snd aw) (fst aw))
                        = Inr ai_data
                      \<and> resolved_fields (today (snd aw) + 30) subj ai_data b)"
      by blast
    from step obtain new1 where
      q: "sent sa = sent st" "bills (store sa) = bills (store st) @ new1"
         "c \<longleftrightarrow> new1 \<noteq> []"
         "\<forall>b\<in>set new1. is_pdf (fst aw)
                \<and> (\<exists>ai_data.
                      analyze_bill_ai cfg (ai (snd aw)) (save_path_of cfg (snd aw) (fst aw))
                        = Inr ai_data
                      \<and> resolved_fields (today (snd aw) + 30) subj ai_data b)"
      by blast
    have "bills (store st1) = bills (store st) @ (new1 @ new2)" using r q by simp
    moreover have "found1 \<longleftrightarrow> found \<or> new1 @ new2 \<noteq> []" using r q by auto
    moreover have "\<forall>b\<in>set (new1 @ new2). \<exists>aw\<in>set (aw # rest). is_pdf (fst aw)
                \<and> (\<exists>ai_data.
                      analyze_bill_ai cfg (ai (snd aw)) (save_path_of cfg (snd aw) (fst aw))
                        = Inr ai_data
                      \<and> resolved_fields (today (snd aw) + 30) subj ai_data b)"
      using r(4) q(4) by auto
    ultimately show ?thesis using r(1) q(1) by metis
  qed
qed

lemma attachments_loop_no_pdf:
  "\<forall>aw\<in>set aws. \<not> is_pdf (fst aw) \<Longrightarrow>
     attachments_loop cfg own subj st found aws = (st, found, None)"
  by (induction aws arbitrary: st found) (simp_all add: process_attachment_not_pdf)


text \<open>One message: the inner loop, then the one call when the flag is set
  and nothing was raised.\<close>

lemma process_message_effect:
  assumes "process_message cfg own st msg = (st1, err)"
  shows "\<exists>st2 found2.
      attachments_loop cfg own (subject msg) st False (attachments msg) = (st2, found2, err)
      \<and> st1 = (if err = None \<and> found2
               then st2\<lparr>sent := sent st2 @ [(Imported (subject msg), Some own)]\<rparr> else st2)"
proof (cases "attachments msg = []")
  case True
  with assms have "st1 = st" "err = None" by (auto simp: process_message_def)
  with True show ?thesis by auto
next
  case False
  obtain st2 found2 e where
    l: "attachments_loop cfg own (subject msg) st False (attachments msg) = (st2, found2, e)"
    by (cases "attachments_loop cfg own (subject msg) st False (attachments msg)") auto
  with assms False show ?thesis
    by (cases e) (auto simp: process_message_def split: if_splits)
qed

lemma process_message_bills:
  assumes "process_message cfg own st msg = (st1, err)"
  shows "\<exists>new. bills (store st1) = bills (store st) @ new
          \<and> (\<forall>b\<in>set new. \<exists>aw\<in>set (attachments msg). is_pdf (fst aw)
                \<and> (\<exists>ai_data.
                      analyze_bill_ai cfg (ai (snd aw)) (save_path_of cfg (snd aw) (fst aw))
                        = Inr ai_data
                      \<and> resolved_fields (today (snd aw) + 30) (subject msg) ai_data b))"
proof -
  from process_message_effect [OF assms] obtain st2 found2 where
    l: "attachments_loop cfg own (subject msg) st False (attachments msg) = (st2, found2, err)"
    and s: "store st1 = store st2"
    by (auto split: if_splits)
  from attachments_loop_effect [OF l] s show ?thesis by auto
qed

lemma messages_loop_bills:
  assumes "messages_loop cfg own st msgs = (st1, err)"
  shows "\<exists>new. bills (store st1) = bills (store st) @ new
          \<and> (\<forall>b\<in>set new. \<exists>msg\<in>set msgs. \<exists>aw\<in>set (attachments msg). is_pdf (fst aw)
                \<and> (\<exists>ai_data.
                      analyze_bill_ai cfg (ai (snd aw)) (save_path_of cfg (snd aw) (fst aw))
                        = Inr ai_data
                      \<and> resolved_fields (today (snd aw) + 30) (subject msg) ai_data b))"
  using assms
proof (induction msgs arbitrary: st)
  case Nil
  then show ?case by simp
next
  case (Cons msg rest)
  obtain sa e where pm: "process_message cfg own st msg = (sa, e)"
    by (cases "process_message cfg own st msg") auto
  from process_message_bills [OF pm] obtain new1 where
    q: "bills (store sa) = bills (store st) @ new1"
       "\<forall>b\<in>set new1. \<exists>aw\<in>set (attachments msg). is_pdf (fst aw)
                \<and> (\<exists>ai_data.
                      analyze_bill_ai cfg (ai (snd aw)) (save_path_of cfg (snd aw) (fst aw))
                        = Inr ai_data
                      \<and> resolved_fields (today (snd aw) + 30) (subject msg) ai_data b)"
    by blast
  show ?case
  proof (cases e)
    case (Some x)
    with Cons.prems pm have "st1 = sa" by simp
    with q show ?thesis by auto
  next
    case None
    with Cons.prems pm have "messages_loop cfg own sa rest = (st1, err)" by simp
    from Cons.IH [OF this] obtain new2 where
      r: "bills (store st1) = bills (store sa) @ new2"
         "\<forall>b\<in>set new2. \<exists>msg\<in>set rest. \<exists>aw\<in>set (attachments msg). is_pdf (fst aw)
                \<and> (\<exists>ai_data.
                      analyze_bill_ai cfg (ai (snd aw)) (save_path_of cfg (snd aw) (fst aw))
                        = Inr ai_data
                      \<and> resolved_fields (today (snd aw) + 30) (subject msg) ai_data b)"
      by blast
    have "bills (store st1) = bills (store st) @ (new1 @ new2)" using q r by simp
    moreover have "\<forall>b\<in>set (new1 @ new2). \<exists>msg\<in>set (msg # rest).
            \<exists>aw\<in>set (attachments msg). is_pdf (fst aw)
                \<and> (\<exists>ai_data.
                      analyze_bill_ai cfg (ai (snd aw)) (save_path_of cfg (snd aw) (fst aw))
                        = Inr ai_data
                      \<and> resolved_fields (today (snd aw) + 30) (subject msg) ai_data b)"
      using q(2) r(2) by auto
    ultimately show ?thesis by blast
  qed
qed

lemma made_from_new_bill:
  assumes "is_pdf (fst aw)"
    and "analyze_bill_ai cfg (ai (snd aw)) (save_path_of cfg (snd aw) (fst aw)) = Inr ai_data"
  shows "made_from cfg own subj aw
           ((new_bill own subj (secure_name_of (snd aw) (fst aw)) (today (snd aw) + 30) ai_data)
              \<lparr>bid := i\<rparr>)"
proof -
  have "resolved_fields (today (snd aw) + 30) subj ai_data
          ((new_bill own subj (secure_name_of (snd aw) (fst aw)) (today (snd aw) + 30) ai_data)
              \<lparr>bid := i\<rparr>)"
    by (rule new_bill_resolved)
  with assms show ?thesis
    by (simp add: made_from_def new_bill_def Let_def)
qed

text \<open>One pass of the loop body appends at most one bill, the one made from
  its attachment.\<close>

lemma process_attachment_made:
  assumes "process_attachment cfg own subj st aw = (sa, c, e)"
  shows "\<exists>new. bills (store sa) = bills (store st) @ new
           \<and> list_all2 (made_from cfg own subj) (if c then [aw] else []) new"
proof (cases c)
  case True
  with process_attachment_store [OF assms] obtain ai_data where
    p: "is_pdf (fst aw)"
    and a: "analyze_bill_ai cfg (ai (snd aw)) (save_path_of cfg (snd aw) (fst aw)) = Inr ai_data"
    and s: "store sa = (store st)\<lparr>bills := bills (store st) @
                   [(new_bill own subj (secure_name_of (snd aw) (fst aw))
                       (today (snd aw) + 30) ai_data)\<lparr>bid := next_bid (store st)\<rparr>]\<rparr>"
    by blast
  from made_from_new_bill [OF p a] True s show ?thesis by simp
next
  case False
  with process_attachment_store [OF assms] show ?thesis by simp
qed

text \<open>The inner loop appends, in order, the bills made from those attachments
  whose pass committed.\<close>

lemma attachments_loop_made:
  assumes "attachments_loop cfg own subj st found aws = (st1, found1, err)"
  shows "\<exists>sel new. subseq sel aws \<and> bills (store st1) = bills (store st) @ new
           \<and> list_all2 (made_from cfg own subj) sel new"
  using assms
proof (induction aws arbitrary: st found)
  case Nil
  then show ?case by simp
next
  case (Cons aw rest)
  obtain sa c e where pa: "process_attachment cfg own subj st aw = (sa, c, e)"
    by (cases "process_attachment cfg own subj st aw") auto
  from process_attachment_made [OF pa] obtain new1 where
    q: "bills (store sa) = bills (store st) @ new1"
       "list_all2 (made_from cfg own subj) (if c then [aw] else []) new1"
    by blast
  have sub1: "subseq (if c then [aw] else []) (aw # rest)" by simp
  show ?case
  proof (cases e)
    case (Some x)
    with Cons.prems pa have "st1 = sa" by simp
    with q sub1 show ?thesis by blast
  next
    case None
    with Cons.prems pa have
      "attachments_loop cfg own subj sa (found \<or> c) rest = (st1, found1, err)" by simp
    from Cons.IH [OF this] obtain sel2 new2 where
      r: "subseq sel2 rest" "bills (store st1) = bills (store sa) @ new2"
         "list_all2 (made_from cfg own subj) sel2 new2"
      by blast
    have "subseq ((if c then [aw] else []) @ sel2) (aw # rest)"
      using r(1) by (cases c) (simp_all add: list_emb_Cons)
    moreover have "bills (store st1) = bills (store st) @ (new1 @ new2)"
      using q(1) r(2) by simp
    moreover have "list_all2 (made_from cfg own subj) ((if c then [aw] else []) @ sel2) (new1 @ new2)"
      using q(2) r(3) by (rule list_all2_appendI)
    ultimately show ?thesis by blast
  qed
qed

lemma process_message_made:
  assumes "process_message cfg own st msg = (st1, err)"
  shows "\<exists>sel new. subseq sel (map (Pair (subject msg)) (attachments msg))
           \<and> bills (store st1) = bills (store st) @ new
           \<and> list_all2 (\<lambda>sa b. made_from cfg own (fst sa) (snd sa) b) sel new"
proof -
  from process_message_effect [OF assms] obtain st2 found2 where
    l: "attachments_loop cfg own (subject msg) st False (attachments msg) = (st2, found2, err)"
    and s: "store st1 = store st2"
    by (auto split: if_splits)
  from attachments_loop_made [OF l] obtain sel new where
    r: "subseq sel (attachments msg)" "bills (store st2) = bills (store st) @ new"
       "list_all2 (made_from cfg own (subject msg)) sel new"
    by blast
  have "subseq (map (Pair (subject msg)) sel) (map (Pair (subject msg)) (attachments msg))"
    using r(1) by (rule subseq_map)
  moreover have "list_all2 (\<lambda>sa b. made_from cfg own (fst sa) (snd sa) b)
                   (map (Pair (subject msg)) sel) new"
    using r(3) by (simp add: list_all2_map1)
  ultimately show ?thesis using r(2) s by auto
qed

lemma messages_loop_made:
  assumes "messages_loop cfg own st msgs = (st1, err)"
  shows "\<exists>sel new. subseq sel (all_attachments msgs)
           \<and> bills (store st1) = bills (store st) @ new
           \<and> list_all2 (\<lambda>sa b. made_from cfg own (fst sa) (snd sa) b) sel new"
  using assms
proof (induction msgs arbitrary: st)
  case Nil
  then show ?case by (simp add: all_attachments_def)
next
  case (Cons msg rest)
  obtain sa e where pm: "process_message cfg own st msg = (sa, e)"
    by (cases "process_message cfg own st msg") auto
  from process_message_made [OF pm] obtain sel1 new1 where
    q: "subseq sel1 (map (Pair (subject msg)) (attachments msg))"
       "bills (store sa) = bills (store st) @ new1"
       "list_all2 (\<lambda>sa b. made_from cfg own (fst sa) (snd sa) b) sel1 new1"
    by blast
  have split: "all_attachments (msg # rest) =
                 map (Pair (subject msg)) (attachments msg) @ all_attachments rest"
    by (simp add: all_attachments_def)
  show ?case
  proof (cases e)
    case (Some x)
    with Cons.prems pm have "st1 = sa" by simp
    moreover have "subseq sel1 (all_attachments (msg # rest))"
      unfolding split using q(1) by (rule list_emb_prefix)
    ultimately show ?thesis using q by blast
  next
    case None
    with Cons.prems pm have "messages_loop cfg own sa rest = (st1, err)" by simp
    from Cons.IH [OF this] obtain sel2 new2 where
      r: "subseq sel2 (all_attachments rest)" "bills (store st1) = bills (store sa) @ new2"
         "list_all2 (\<lambda>sa b. made_from cfg own (fst sa) (snd sa) b) sel2 new2"
      by blast
    have "subseq (sel1 @ sel2) (all_attachments (msg # rest))"
      unfolding split using q(1) r(1) by (rule list_emb_append_mono)
    moreover have "bills (store st1) = bills (store st) @ (new1 @ new2)"
      using q(2) r(2) by simp
    moreover have "list_all2 (\<lambda>sa b. made_from cfg own (fst sa) (snd sa) b)
                     (sel1 @ sel2) (new1 @ new2)"
      using q(3) r(3) by (rule list_all2_appendI)
    ultimately show ?thesis by blast
  qed
qed

text \<open>
  Claim C4, as the code has it. The bills a run of \<^verbatim>\<open>process_mailbox\<close> adds
  to the store are, one for one and in order, made from attachments picked in
  order from the PDF attachments of the unseen messages, and each bill is
  made from its own attachment: it is stored under the name that attachment
  was saved under, belongs to the owning user, and has the fields resolved
  from that attachment's extraction result. Its due date is the extracted
  date if the result has one, else the day the attachment was handled plus 30
  days, and never null; its title is the extracted title if that is truthy
  (not null and not empty), else the message subject cut to 100 characters;
  its amount is the extracted amount if that is truthy (not null and not
  zero), else null. One pass of the loop body that commits appends exactly
  the bill made from its attachment.
\<close>

theorem mailbox_bill_fields:
  assumes "process_mailbox cfg own st mb = (st1, err)"
  shows "(\<exists>sel new. subseq sel (all_attachments (unseen mb))
            \<and> bills (store st1) = bills (store st) @ new
            \<and> list_all2 (\<lambda>sa b. made_from cfg own (fst sa) (snd sa) b) sel new)
       \<and> (\<forall>subj s aw sa e. process_attachment cfg own subj s aw = (sa, True, e) \<longrightarrow>
             (\<exists>b. bills (store sa) = bills (store s) @ [b] \<and> made_from cfg own subj aw b))
       \<and> (\<forall>subj aw b. made_from cfg own subj aw b \<longrightarrow>
             (\<exists>ai_data.
                analyze_bill_ai cfg (ai (snd aw)) (save_path_of cfg (snd aw) (fst aw)) = Inr ai_data
                \<and> due_date b = Some (case ai_data of
                      Some r \<Rightarrow> (case date_field r of Some dt \<Rightarrow> dt
                                 | None \<Rightarrow> today (snd aw) + 30)
                    | None \<Rightarrow> today (snd aw) + 30)
                \<and> title b = (case ai_data of
                      Some r \<Rightarrow> (if truthy (title_field r) then title_field r
                                 else JStr (take 100 subj))
                    | None \<Rightarrow> JStr (take 100 subj))
                \<and> amount b = (case ai_data of
                      Some r \<Rightarrow> (if truthy (amount_field r) then amount_field r else JNull)
                    | None \<Rightarrow> JNull)))"
proof (intro conjI allI impI)
  show "\<exists>sel new. subseq sel (all_attachments (unseen mb))
            \<and> bills (store st1) = bills (store st) @ new
            \<and> list_all2 (\<lambda>sa b. made_from cfg own (fst sa) (snd sa) b) sel new"
  proof (cases "login_error mb")
    case None
    with assms have "messages_loop cfg own st (unseen mb) = (st1, err)"
      by (simp add: process_mailbox_def)
    then show ?thesis by (rule messages_loop_made)
  next
    case (Some x)
    with assms have "st1 = st" by (simp add: process_mailbox_def)
    then have "subseq [] (all_attachments (unseen mb)) \<and> bills (store st1) = bills (store st) @ []
      \<and> list_all2 (\<lambda>sa b. made_from cfg own (fst sa) (snd sa) b) [] []"
      by simp
    then show ?thesis by blast
  qed
next
  fix subj s aw sa e
  assume "process_attachment cfg own subj s aw = (sa, True, e)"
  from process_attachment_made [OF this]
  show "\<exists>b. bills (store sa) = bills (store s) @ [b] \<and> made_from cfg own subj aw b"
    by (auto simp: list_all2_Cons1)
next
  fix subj aw b
  assume m: "made_from cfg own subj aw b"
  obtain ai_data where
    a: "analyze_bill_ai cfg (ai (snd aw)) (save_path_of cfg (snd aw) (fst aw)) = Inr ai_data"
    using analyze_returns by blast
  with m have "resolved_fields (today (snd aw) + 30) subj ai_data b"
    by (simp add: made_from_def)
  with a show "\<exists>ai_data.
                analyze_bill_ai cfg (ai (snd aw)) (save_path_of cfg (snd aw) (fst aw)) = Inr ai_data
                \<and> due_date b = Some (case ai_data of
                      Some r \<Rightarrow> (case date_field r of Some dt \<Rightarrow> dt
                                 | None \<Rightarrow> today (snd aw) + 30)
                    | None \<Rightarrow> today (snd aw) + 30)
                \<and> title b = (case ai_data of
                      Some r \<Rightarrow> (if truthy (title_field r) then title_field r
                                 else JStr (take 100 subj))
                    | None \<Rightarrow> JStr (take 100 subj))
                \<and> amount b = (case ai_data of
                      Some r \<Rightarrow> (if truthy (amount_field r) then amount_field r else JNull)
                    | None \<Rightarrow> JNull)"
    by (simp add: resolved_fields_def)
qed

text \<open>A run on a message with two invoices: the bill stored under the first
  invoice's name has the first reply's fields (the date written month first
  is dropped, so the due date is the default), and the bill stored under the
  second invoice's name has the second reply's.\<close>

theorem mailbox_bill_fields_witness:
  "bills (store (fst (process_mailbox cfg_fallback alice state0 mailbox_two))) =
     bills (store state0) @
     [\<lparr>bid = 1, title = JStr ''ACME'', filename = ''1700000000_invoice.pdf'',
       amount = JFloat 0x405E200000000000, status = ''offen'',
       due_date = Some 738989, user_id = 1\<rparr>,
      \<lparr>bid = 2, title = JStr ''ACME'', filename = ''1700000000_other.pdf'',
       amount = JStr ''n/a'', status = ''offen'',
       due_date = Some 738949, user_id = 1\<rparr>]
   \<and> made_from cfg_fallback alice ''Zwei Rechnungen''
       (att_invoice, world_of (service (fenced body_slashes) body_slashes kvs_slashes))
       \<lparr>bid = 1, title = JStr ''ACME'', filename = ''1700000000_invoice.pdf'',
        amount = JFloat 0x405E200000000000, status = ''offen'',
        due_date = Some 738989, user_id = 1\<rparr>
   \<and> made_from cfg_fallback alice ''Zwei Rechnungen''
       (att_other, world_of (service (fenced body_loose) body_loose kvs_loose))
       \<lparr>bid = 2, title = JStr ''ACME'', filename = ''1700000000_other.pdf'',
        amount = JStr ''n/a'', status = ''offen'',
        due_date = Some 738949, user_id = 1\<rparr>
   \<and> \<not> made_from cfg_fallback alice ''Zwei Rechnungen''
       (att_invoice, world_of (service (fenced body_slashes) body_slashes kvs_slashes))
       \<lparr>bid = 1, title = JStr ''ACME'', filename = ''1700000000_invoice.pdf'',
        amount = JStr ''n/a'', status = ''offen'',
        due_date = Some 738949, user_id = 1\<rparr>"
proof -
  have run: "process_mailbox cfg_fallback alice state0 mailbox_two =
          (fst (process_mailbox cfg_fallback alice state0 mailbox_two),
           snd (process_mailbox cfg_fallback alice state0 mailbox_two))"
    by simp
  have 1: "bills (store (fst (process_mailbox cfg_fallback alice state0 mailbox_two))) =
     bills (store state0) @
     [\<lparr>bid = 1, title = JStr ''ACME'', filename = ''1700000000_invoice.pdf'',
       amount = JFloat 0x405E200000000000, status = ''offen'',
       due_date = Some 738989, user_id = 1\<rparr>,
      \<lparr>bid = 2, title = JStr ''ACME'', filename = ''1700000000_other.pdf'',
       amount = JStr ''n/a'', status = ''offen'',
       due_date = Some 738949, user_id = 1\<rparr>]"
    by code_simp
  have 2: "made_from cfg_fallback alice ''Zwei Rechnungen''
       (att_invoice, world_of (service (fenced body_slashes) body_slashes kvs_slashes))
       \<lparr>bid = 1, title = JStr ''ACME'', filename = ''1700000000_invoice.pdf'',
        amount = JFloat 0x405E200000000000, status = ''offen'',
        due_date = Some 738989, user_id = 1\<rparr>"
    by code_simp
  have 3: "made_from cfg_fallback alice ''Zwei Rechnungen''
       (att_other, world_of (service (fenced body_loose) body_loose kvs_loose))
       \<lparr>bid = 2, title = JStr ''ACME'', filename = ''1700000000_other.pdf'',
        amount = JStr ''n/a'', status = ''offen'',
        due_date = Some 738949, user_id = 1\<rparr>"
    by code_simp
  have 4: "\<not> made_from cfg_fallback alice ''Zwei Rechnungen''
       (att_invoice, world_of (service (fenced body_slashes) body_slashes kvs_slashes))
       \<lparr>bid = 1, title = JStr ''ACME'', filename = ''1700000000_invoice.pdf'',
        amount = JStr ''n/a'', status = ''offen'',
        due_date = Some 738949, user_id = 1\<rparr>"
    by code_simp
  show ?thesis
    using mailbox_bill_fields [OF run] 1 2 3 4 by blast
qed

text \<open>The claim as stated fails on a reply with an empty title and the amount
  0.00: the extraction result has both, yet the bill gets the subject as its
  title and no amount.\<close>

theorem mailbox_bill_fields_counterexample:
  "analyze_bill_ai cfg_fallback (service (fenced body_zero) body_zero kvs_zero)
       ''/app/data/uploads/1700000000_invoice.pdf'' =
     Inr (Some \<lparr>date_field = None, title_field = JStr [], amount_field = JFloat 0\<rparr>)
   \<and> bills (store (fst (process_mailbox cfg_fallback alice state0
        \<lparr>login_error = None,
         unseen = [\<lparr>subject = ''Rechnung'',
                    attachments = [(att_invoice,
                      world_of (service (fenced body_zero) body_zero kvs_zero))]\<rparr>]\<rparr>))) =
     [\<lparr>bid = 1, title = JStr ''Rechnung'', filename = ''1700000000_invoice.pdf'',
       amount = JNull, status = ''offen'', due_date = Some 738989, user_id = 1\<rparr>]"
  by code_simp

lemma process_attachment_commit_fails:
  assumes "is_pdf att" and "write_error w = None" and "today w + 30 \<le> max_ordinal"
    and "analyze_bill_ai cfg (ai w) (save_path_of cfg w att) = Inr ai_data"
    and "commit_bill (store st) (commit_error w)
           (new_bill own subj (secure_name_of w att) (today w + 30) ai_data) = Inl e"
  shows "process_attachment cfg own subj st (att, w) =
           (st\<lparr>uploads := (uploads st)(secure_name_of w att \<mapsto> payload att)\<rparr>, False, None)"
  using assms by (simp add: process_attachment_def Let_def)

lemma process_mailbox_appends:
  "\<exists>new. bills (store (fst (process_mailbox cfg own st mb))) = bills (store st) @ new"
proof (cases "login_error mb")
  case None
  have "messages_loop cfg own st (unseen mb) =
          (fst (messages_loop cfg own st (unseen mb)), snd (messages_loop cfg own st (unseen mb)))"
    by simp
  from messages_loop_bills [OF this] obtain new where
    "bills (store (fst (messages_loop cfg own st (unseen mb)))) = bills (store st) @ new"
    by blast
  with None show ?thesis by (simp add: process_mailbox_def)
next
  case (Some e)
  then show ?thesis by (simp add: process_mailbox_def)
qed

text \<open>
  Claim C5. When the commit of the bill made from one attachment fails, the
  loop body leaves the store exactly as it was before that attachment (only
  the new record is dropped; the file it wrote stays), raises nothing, and
  the job goes on: the remaining attachments of the message and the remaining
  messages are handled from that state. In every run the bills in the store
  at its start are a prefix of the bills at its end.
\<close>

theorem commit_failure_is_local:
  assumes "is_pdf att" and "write_error w = None" and "today w + 30 \<le> max_ordinal"
    and "analyze_bill_ai cfg (ai w) (save_path_of cfg w att) = Inr ai_data"
    and "commit_bill (store st) (commit_error w)
           (new_bill own subj (secure_name_of w att) (today w + 30) ai_data) = Inl e"
  shows "process_attachment cfg own subj st (att, w) =
           (st\<lparr>uploads := (uploads st)(secure_name_of w att \<mapsto> payload att)\<rparr>, False, None)
       \<and> store (fst (process_attachment cfg own subj st (att, w))) = store st
       \<and> attachments_loop cfg own subj st found ((att, w) # rest) =
           attachments_loop cfg own subj
             (st\<lparr>uploads := (uploads st)(secure_name_of w att \<mapsto> payload att)\<rparr>) found rest
       \<and> messages_loop cfg own st (\<lparr>subject = subj, attachments = [(att, w)]\<rparr> # msgs) =
           messages_loop cfg own
             (st\<lparr>uploads := (uploads st)(secure_name_of w att \<mapsto> payload att)\<rparr>) msgs
       \<and> (\<forall>mb. \<exists>new. bills (store (fst (process_mailbox cfg own st mb))) = bills (store st) @ new)"
proof -
  note pa = process_attachment_commit_fails [OF assms]
  show ?thesis
    by (simp add: pa process_message_def process_mailbox_appends)
qed


theorem commit_failure_is_local_witness:
  "is_pdf att_invoice
   \<and> commit_bill (store state_dup) (commit_error (world_of service_down))
        (new_bill alice ''Rechnung'' (secure_name_of (world_of service_down) att_invoice)
           (today (world_of service_down) + 30) None) = Inl (OtherError ''IntegrityError'')
   \<and> store (fst (process_attachment cfg_fallback alice ''Rechnung'' state_dup
        (att_invoice, world_of service_down))) = store state_dup
   \<and> snd (process_attachment cfg_fallback alice ''Rechnung'' state_dup
        (att_invoice, world_of service_down)) = (False, None)"
proof -
  have h1: "is_pdf att_invoice" by code_simp
  have h2: "write_error (world_of service_down) = None" by (simp add: world_of_def)
  have h3: "today (world_of service_down) + 30 \<le> max_ordinal"
    by (simp add: world_of_def max_ordinal_def)
  have h4: "analyze_bill_ai cfg_fallback (ai (world_of service_down))
              (save_path_of cfg_fallback (world_of service_down) att_invoice) = Inr None"
    by code_simp
  have h5: "commit_bill (store state_dup) (commit_error (world_of service_down))
        (new_bill alice ''Rechnung'' (secure_name_of (world_of service_down) att_invoice)
           (today (world_of service_down) + 30) None) = Inl (OtherError ''IntegrityError'')"
    by code_simp
  show ?thesis
    using h1 h5 commit_failure_is_local [OF h1 h2 h3 h4 h5] by simp
qed

text \<open>
  Claim C6, as the code has it. For every unseen message the job handles,
  with \<open>new\<close> the bills committed from its attachments: when no exception ends
  the scan while the message is handled, exactly one call of
  \<^verbatim>\<open>send_notification\<close> is made, for the owning user and with the message
  subject, if \<open>new\<close> is not empty, and none if it is empty, and the call comes
  after the whole loop over the attachments; when an exception ends the scan
  there, no call is made for the message; and a message without a PDF
  attachment changes nothing and notifies nobody.
\<close>

theorem one_notification_per_message:
  assumes "process_message cfg own st msg = (st1, err)"
  shows "\<exists>new. bills (store st1) = bills (store st) @ new
          \<and> (err = None \<longrightarrow>
                sent st1 = sent st @ (if new \<noteq> [] then [(Imported (subject msg), Some own)]
                                      else [])
                \<and> attachments_loop cfg own (subject msg) st False (attachments msg)
                    = (st1\<lparr>sent := sent st\<rparr>, new \<noteq> [], None))
          \<and> (err \<noteq> None \<longrightarrow> sent st1 = sent st)
          \<and> ((\<forall>aw\<in>set (attachments msg). \<not> is_pdf (fst aw)) \<longrightarrow> st1 = st \<and> err = None)"
proof -
  from process_message_effect [OF assms] obtain st2 found2 where
    l: "attachments_loop cfg own (subject msg) st False (attachments msg) = (st2, found2, err)"
    and s: "st1 = (if err = None \<and> found2
               then st2\<lparr>sent := sent st2 @ [(Imported (subject msg), Some own)]\<rparr> else st2)"
    by blast
  from attachments_loop_effect [OF l] obtain new where
    n: "sent st2 = sent st" "bills (store st2) = bills (store st) @ new"
       "found2 \<longleftrightarrow> new \<noteq> []"
    by auto
  have a: "bills (store st1) = bills (store st) @ new" using s n by simp
  have b: "err = None \<longrightarrow>
                sent st1 = sent st @ (if new \<noteq> [] then [(Imported (subject msg), Some own)]
                                      else [])
                \<and> attachments_loop cfg own (subject msg) st False (attachments msg)
                    = (st1\<lparr>sent := sent st\<rparr>, new \<noteq> [], None)"
  proof
    assume e: "err = None"
    have "st1\<lparr>sent := sent st\<rparr> = st2" using s n by (cases found2) simp_all
    with e l n s show "sent st1 = sent st @ (if new \<noteq> [] then [(Imported (subject msg), Some own)]
                                      else [])
                \<and> attachments_loop cfg own (subject msg) st False (attachments msg)
                    = (st1\<lparr>sent := sent st\<rparr>, new \<noteq> [], None)"
      by simp
  qed
  have c: "err \<noteq> None \<longrightarrow> sent st1 = sent st" using s n by simp
  have d: "(\<forall>aw\<in>set (attachments msg). \<not> is_pdf (fst aw)) \<longrightarrow> st1 = st \<and> err = None"
  proof
    assume "\<forall>aw\<in>set (attachments msg). \<not> is_pdf (fst aw)"
    from attachments_loop_no_pdf [OF this] l s show "st1 = st \<and> err = None" by simp
  qed
  from a b c d show ?thesis by blast
qed

theorem one_notification_per_message_witness:
  "sent (fst (process_message cfg_fallback alice state0 msg_acme)) =
     sent state0 @ [(Imported ''Ihre Rechnung'', Some alice)]
   \<and> length (bills (store (fst (process_message cfg_fallback alice state0 msg_acme)))) = 1
   \<and> snd (process_message cfg_fallback alice state0 msg_acme) = None
   \<and> sent (fst (process_message cfg_fallback alice state0 msg_docx)) = []
   \<and> bills (store (fst (process_message cfg_fallback alice state0 msg_docx))) = []"
proof -
  have r1: "process_message cfg_fallback alice state0 msg_acme =
          (fst (process_message cfg_fallback alice state0 msg_acme),
           snd (process_message cfg_fallback alice state0 msg_acme))"
    by simp
  have r2: "process_message cfg_fallback alice state0 msg_docx =
          (fst (process_message cfg_fallback alice state0 msg_docx),
           snd (process_message cfg_fallback alice state0 msg_docx))"
    by simp
  have e1: "snd (process_message cfg_fallback alice state0 msg_acme) = None" by code_simp
  have b1: "length (bills (store (fst (process_message cfg_fallback alice state0 msg_acme)))) = 1"
    by code_simp
  have s0: "sent state0 = []" "bills (store state0) = []" by (simp_all add: state0_def)
  have sub: "subject msg_acme = ''Ihre Rechnung''" by (simp add: msg_acme_def)
  have "\<not> is_pdf att_docx" by code_simp
  then have np: "\<forall>aw\<in>set (attachments msg_docx). \<not> is_pdf (fst aw)"
    by (simp add: msg_docx_def)
  from one_notification_per_message [OF r2] np s0
  have w2: "sent (fst (process_message cfg_fallback alice state0 msg_docx)) = []
     \<and> bills (store (fst (process_message cfg_fallback alice state0 msg_docx))) = []"
    by auto
  from one_notification_per_message [OF r1] e1 b1 s0 sub
  have w1: "sent (fst (process_message cfg_fallback alice state0 msg_acme)) =
     sent state0 @ [(Imported ''Ihre Rechnung'', Some alice)]"
    by auto
  from w1 w2 e1 b1 show ?thesis by simp
qed

text \<open>The claim as stated fails on a message with two PDF attachments of
  which the first is committed and the second cannot be written to the
  upload folder: the exception ends the scan, one bill of the message is in
  the store, and no call was made.\<close>

theorem one_notification_per_message_counterexample:
  "bills (store (fst (process_message cfg_fallback alice state0 msg_partial))) =
     [\<lparr>bid = 1, title = JStr ''Rechnungen'', filename = ''1700000000_invoice.pdf'',
       amount = JNull, status = ''offen'', due_date = Some 738989, user_id = 1\<rparr>]
   \<and> sent (fst (process_message cfg_fallback alice state0 msg_partial)) = []
   \<and> snd (process_message cfg_fallback alice state0 msg_partial) = Some OSError"
  by code_simp

subsection \<open>Deleting a bill and serving a file\<close>

lemma find_None_set: "find P xs = None \<longleftrightarrow> (\<forall>x\<in>set xs. \<not> P x)"
  by (induction xs) auto

lemma find_Some_set: "find P xs = Some x \<Longrightarrow> x \<in> set xs \<and> P x"
  by (induction xs) (auto split: if_splits)

lemma fold_remove_file:
  "fold (remove_file rm) names fs =
     (\<lambda>n. if n \<in> set names \<and> rm n = None then None else fs n)"
proof (induction names arbitrary: fs)
  case Nil
  then show ?case by simp
next
  case (Cons a names)
  have "fold (remove_file rm) (a # names) fs =
          (\<lambda>n. if n \<in> set names \<and> rm n = None then None else remove_file rm a fs n)"
    by (simp add: Cons.IH)
  also have "\<dots> = (\<lambda>n. if n \<in> set (a # names) \<and> rm n = None then None else fs n)"
    by (auto simp: remove_file_def fun_eq_iff split: option.splits)
  finally show ?case .
qed

text \<open>
  Claim C9. A request of the logged-in user \<open>cur\<close> for a file name gets
  not-found when no bill owns the name, neither as its stored name nor
  through a BillFile row; gets forbidden when a bill owns the name and every
  bill that owns it belongs to another user (every BillFile row referring to
  an existing bill, as the foreign key demands); and the file is sent only
  when a bill that owns the name belongs to \<open>cur\<close>.
\<close>

theorem serve_file_access:
  "((\<forall>b\<in>set (bills d). filename b \<noteq> fname
        \<and> (\<forall>f\<in>set (bill_files d). file_name f = fname \<longrightarrow> bill_id f \<noteq> bid b))
      \<longrightarrow> serve_file d cur fname = NotFound)
   \<and> ((\<forall>f\<in>set (bill_files d). \<exists>b\<in>set (bills d). bid b = bill_id f)
       \<and> (\<exists>b\<in>set (bills d). filename b = fname
            \<or> (\<exists>f\<in>set (bill_files d). file_name f = fname \<and> bill_id f = bid b))
       \<and> (\<forall>b\<in>set (bills d). filename b = fname
            \<or> (\<exists>f\<in>set (bill_files d). file_name f = fname \<and> bill_id f = bid b)
            \<longrightarrow> user_id b \<noteq> cur)
      \<longrightarrow> serve_file d cur fname = Forbidden)
   \<and> (\<forall>sent_name. serve_file d cur fname = SendFile sent_name \<longrightarrow>
        sent_name = fname
        \<and> (\<exists>b\<in>set (bills d). user_id b = cur
             \<and> (filename b = fname
                 \<or> (\<exists>f\<in>set (bill_files d). file_name f = fname \<and> bill_id f = bid b))))"
proof (intro conjI allI impI)
  assume h: "\<forall>b\<in>set (bills d). filename b \<noteq> fname
        \<and> (\<forall>f\<in>set (bill_files d). file_name f = fname \<longrightarrow> bill_id f \<noteq> bid b)"
  then have 0: "find (\<lambda>b. filename b = fname) (bills d) = None"
    by (simp add: find_None_set)
  have "case find (\<lambda>f. file_name f = fname) (bill_files d) of
          Some bf \<Rightarrow> bill_of d bf = None | None \<Rightarrow> True"
  proof (cases "find (\<lambda>f. file_name f = fname) (bill_files d)")
    case None
    then show ?thesis by simp
  next
    case (Some bf)
    then have "bf \<in> set (bill_files d)" "file_name bf = fname"
      by (auto dest: find_Some_set)
    with h have "\<forall>b\<in>set (bills d). bid b \<noteq> bill_id bf" by metis
    then have "bill_of d bf = None" by (simp add: bill_of_def find_None_set)
    with Some show ?thesis by simp
  qed
  with 0 show "serve_file d cur fname = NotFound"
    by (simp add: serve_file_def split: option.splits)
next
  assume h: "(\<forall>f\<in>set (bill_files d). \<exists>b\<in>set (bills d). bid b = bill_id f)
       \<and> (\<exists>b\<in>set (bills d). filename b = fname
            \<or> (\<exists>f\<in>set (bill_files d). file_name f = fname \<and> bill_id f = bid b))
       \<and> (\<forall>b\<in>set (bills d). filename b = fname
            \<or> (\<exists>f\<in>set (bill_files d). file_name f = fname \<and> bill_id f = bid b)
            \<longrightarrow> user_id b \<noteq> cur)"
  show "serve_file d cur fname = Forbidden"
  proof (cases "find (\<lambda>b. filename b = fname) (bills d)")
    case (Some b)
    then have "b \<in> set (bills d)" "filename b = fname" by (auto dest: find_Some_set)
    with h have "user_id b \<noteq> cur" by blast
    with Some show ?thesis by (simp add: serve_file_def)
  next
    case None
    then have nb: "\<forall>b\<in>set (bills d). filename b \<noteq> fname" by (simp add: find_None_set)
    with h obtain f0 where "f0 \<in> set (bill_files d)" "file_name f0 = fname" by blast
    then obtain bf where bf: "find (\<lambda>f. file_name f = fname) (bill_files d) = Some bf"
      by (cases "find (\<lambda>f. file_name f = fname) (bill_files d)") (auto simp: find_None_set)
    then have bfs: "bf \<in> set (bill_files d)" "file_name bf = fname"
      by (auto dest: find_Some_set)
    with h obtain b0 where "b0 \<in> set (bills d)" "bid b0 = bill_id bf" by blast
    then obtain b where b: "bill_of d bf = Some b"
      by (cases "bill_of d bf") (auto simp: bill_of_def find_None_set)
    then have "b \<in> set (bills d)" "bid b = bill_id bf"
      by (auto simp: bill_of_def dest: find_Some_set)
    with bfs h have "user_id b \<noteq> cur" by metis
    with None bf b show ?thesis by (simp add: serve_file_def)
  qed
next
  fix sent_name
  assume s: "serve_file d cur fname = SendFile sent_name"
  then show "sent_name = fname"
    by (auto simp: serve_file_def Let_def split: option.splits if_splits)
next
  fix sent_name
  assume s: "serve_file d cur fname = SendFile sent_name"
  show "\<exists>b\<in>set (bills d). user_id b = cur
             \<and> (filename b = fname
                 \<or> (\<exists>f\<in>set (bill_files d). file_name f = fname \<and> bill_id f = bid b))"
  proof (cases "find (\<lambda>b. filename b = fname) (bills d)")
    case (Some b)
    then have "b \<in> set (bills d)" "filename b = fname" by (auto dest: find_Some_set)
    moreover from s Some have "user_id b = cur"
      by (auto simp: serve_file_def split: if_splits)
    ultimately show ?thesis by blast
  next
    case None
    with s obtain bf b where bf: "find (\<lambda>f. file_name f = fname) (bill_files d) = Some bf"
      and b: "bill_of d bf = Some b" and u: "user_id b = cur"
      by (auto simp: serve_file_def split: option.splits if_splits)
    from bf have "bf \<in> set (bill_files d)" "file_name bf = fname"
      by (auto dest: find_Some_set)
    moreover from b have "b \<in> set (bills d)" "bid b = bill_id bf"
      by (auto simp: bill_of_def dest: find_Some_set)
    ultimately show ?thesis using u by metis
  qed
qed


theorem serve_file_access_witness:
  "serve_file db_files 1 ''nope.pdf'' = NotFound
   \<and> serve_file db_files 2 ''manual_1_1.png'' = Forbidden
   \<and> serve_file db_files 1 ''manual_1_1.png'' = SendFile ''manual_1_1.png''"
proof -
  have nf: "\<forall>b\<in>set (bills db_files). filename b \<noteq> ''nope.pdf''
        \<and> (\<forall>f\<in>set (bill_files db_files). file_name f = ''nope.pdf'' \<longrightarrow> bill_id f \<noteq> bid b)"
    by (simp add: db_files_def)
  have fk: "\<forall>f\<in>set (bill_files db_files). \<exists>b\<in>set (bills db_files). bid b = bill_id f"
    by (simp add: db_files_def)
  have ex: "\<exists>b\<in>set (bills db_files). filename b = ''manual_1_1.png''
            \<or> (\<exists>f\<in>set (bill_files db_files).
                  file_name f = ''manual_1_1.png'' \<and> bill_id f = bid b)"
    by (simp add: db_files_def)
  have ot: "\<forall>b\<in>set (bills db_files). filename b = ''manual_1_1.png''
            \<or> (\<exists>f\<in>set (bill_files db_files).
                  file_name f = ''manual_1_1.png'' \<and> bill_id f = bid b)
            \<longrightarrow> user_id b \<noteq> 2"
    by (simp add: db_files_def)
  have w1: "serve_file db_files 1 ''nope.pdf'' = NotFound"
    using serve_file_access [of db_files "''nope.pdf''" 1] nf by blast
  have w2: "serve_file db_files 2 ''manual_1_1.png'' = Forbidden"
    using serve_file_access [of db_files "''manual_1_1.png''" 2] fk ex ot by blast
  have w3: "serve_file db_files 1 ''manual_1_1.png'' = SendFile ''manual_1_1.png''"
    by code_simp
  from w1 w2 w3 show ?thesis by simp
qed

text \<open>
  Claim C8, as the code has it. Deleting a bill the requester owns removes
  the bill's row and all of its BillFile rows, and removes from the upload
  folder each file named by the bill's stored name or by one of its BillFile
  rows whose removal does not fail; a removal that fails is ignored and
  leaves that file where it is; every other file stays. A request for an id
  under which the requester owns no bill, as after a deletion of that id, is
  answered with not-found and changes nothing.
\<close>

theorem delete_bill_effect:
  "(\<forall>b. find (\<lambda>b. bid b = i \<and> user_id b = cur) (bills d) = Some b \<longrightarrow>
       delete_bill rm cur i (d, fs) =
         ((d\<lparr>bills := filter (\<lambda>x. bid x \<noteq> i) (bills d),
             bill_files := filter (\<lambda>f. bill_id f \<noteq> i) (bill_files d)\<rparr>,
           (\<lambda>n. if (n = filename b \<or> n \<in> file_name ` set (files d b)) \<and> rm n = None
                then None else fs n)),
          Redirect))
   \<and> ((\<forall>b\<in>set (bills d). bid b \<noteq> i \<or> user_id b \<noteq> cur) \<longrightarrow>
        delete_bill rm cur i (d, fs) = ((d, fs), NotFound))
   \<and> delete_bill rm2 cur i (fst (delete_bill rm cur i (d, fs))) =
        (fst (delete_bill rm cur i (d, fs)), NotFound)"
proof (intro conjI allI impI)
  fix b
  assume f: "find (\<lambda>b. bid b = i \<and> user_id b = cur) (bills d) = Some b"
  then have i: "bid b = i" by (auto dest: find_Some_set)
  have "fold (remove_file rm) (remdups (filename b # map file_name (files d b))) fs =
          (\<lambda>n. if (n = filename b \<or> n \<in> file_name ` set (files d b)) \<and> rm n = None
                then None else fs n)"
    by (auto simp: fold_remove_file fun_eq_iff)
  with f i show "delete_bill rm cur i (d, fs) =
         ((d\<lparr>bills := filter (\<lambda>x. bid x \<noteq> i) (bills d),
             bill_files := filter (\<lambda>f. bill_id f \<noteq> i) (bill_files d)\<rparr>,
           (\<lambda>n. if (n = filename b \<or> n \<in> file_name ` set (files d b)) \<and> rm n = None
                then None else fs n)),
          Redirect)"
    by (simp add: delete_bill_def Let_def)
next
  assume "\<forall>b\<in>set (bills d). bid b \<noteq> i \<or> user_id b \<noteq> cur"
  then have "find (\<lambda>b. bid b = i \<and> user_id b = cur) (bills d) = None"
    by (simp add: find_None_set)
  then show "delete_bill rm cur i (d, fs) = ((d, fs), NotFound)"
    by (simp add: delete_bill_def)
next
  show "delete_bill rm2 cur i (fst (delete_bill rm cur i (d, fs))) =
        (fst (delete_bill rm cur i (d, fs)), NotFound)"
  proof (cases "find (\<lambda>b. bid b = i \<and> user_id b = cur) (bills d)")
    case None
    then show ?thesis by (simp add: delete_bill_def)
  next
    case (Some b)
    then have i: "bid b = i" by (auto dest: find_Some_set)
    have "find (\<lambda>b. bid b = i \<and> user_id b = cur) (filter (\<lambda>x. bid x \<noteq> i) (bills d)) = None"
      by (simp add: find_None_set)
    with Some i show ?thesis by (simp add: delete_bill_def Let_def)
  qed
qed

theorem delete_bill_effect_witness:
  "snd (delete_bill rm_works 1 1 (db_files, disk_files)) = Redirect
   \<and> map bid (bills (fst (fst (delete_bill rm_works 1 1 (db_files, disk_files))))) = [2]
   \<and> bill_files (fst (fst (delete_bill rm_works 1 1 (db_files, disk_files)))) = []
   \<and> snd (fst (delete_bill rm_works 1 1 (db_files, disk_files))) ''manual_1_0.pdf'' = None
   \<and> snd (fst (delete_bill rm_works 1 1 (db_files, disk_files))) ''manual_1_1.png'' = None
   \<and> snd (fst (delete_bill rm_works 1 1 (db_files, disk_files))) ''17_x.pdf'' = Some [37, 80, 68]
   \<and> delete_bill rm_works 1 99 (db_files, disk_files) = ((db_files, disk_files), NotFound)"
proof -
  have f: "find (\<lambda>b. bid b = 1 \<and> user_id b = 1) (bills db_files) =
             Some \<lparr>bid = 1, title = JStr ''Strom'', filename = ''manual_1_0.pdf'', amount = JNull,
                   status = ''offen'', due_date = None, user_id = 1\<rparr>"
    by (simp add: db_files_def)
  have n: "\<forall>b\<in>set (bills db_files). bid b \<noteq> 99 \<or> user_id b \<noteq> 1"
    by (simp add: db_files_def)
  have fl: "file_name ` set (files db_files
               \<lparr>bid = 1, title = JStr ''Strom'', filename = ''manual_1_0.pdf'', amount = JNull,
                status = ''offen'', due_date = None, user_id = 1\<rparr>) =
            {''manual_1_0.pdf'', ''manual_1_1.png''}"
    by (simp add: files_def db_files_def)
  from delete_bill_effect [of 1 1 db_files rm_works disk_files] f
  have d: "delete_bill rm_works 1 1 (db_files, disk_files) =
         ((db_files\<lparr>bills := filter (\<lambda>x. bid x \<noteq> 1) (bills db_files),
             bill_files := filter (\<lambda>f. bill_id f \<noteq> 1) (bill_files db_files)\<rparr>,
           (\<lambda>n. if (n = ''manual_1_0.pdf'' \<or> n \<in> {''manual_1_0.pdf'', ''manual_1_1.png''})
                    \<and> rm_works n = None
                then None else disk_files n)),
          Redirect)"
    by (simp add: fl)
  from delete_bill_effect [of 99 1 db_files rm_works disk_files] n
  have e: "delete_bill rm_works 1 99 (db_files, disk_files) = ((db_files, disk_files), NotFound)"
    by blast
  show ?thesis
    by (simp add: d e) (simp add: db_files_def disk_files_def rm_works_def)
qed

text \<open>The claim as stated fails when the removal of a stored file fails: the
  bill and its BillFile rows are deleted and the file stays in the upload
  folder.\<close>

theorem delete_bill_effect_counterexample:
  "snd (delete_bill rm_busy 1 1 (db_files, disk_files)) = Redirect
   \<and> map bid (bills (fst (fst (delete_bill rm_busy 1 1 (db_files, disk_files))))) = [2]
   \<and> bill_files (fst (fst (delete_bill rm_busy 1 1 (db_files, disk_files)))) = []
   \<and> snd (fst (delete_bill rm_busy 1 1 (db_files, disk_files))) ''manual_1_0.pdf''
       = Some [37, 80]"
  by code_simp

end
